theory Spec2Isabelle
  imports Complex_Main "HOL-Library.Sublist" "HOL-Library.Multiset" "HOL-Library.AList"
    "HOL-Library.Product_Lexorder"
begin

section \<open>Python values the program works with\<close>

text \<open>
  The program is \<^verbatim>\<open>main.py\<close>: a \<^verbatim>\<open>CSVTransformer\<close> that normalises monthly CSV exports
  and unions them, and a \<^verbatim>\<open>CSVValidator\<close> that reports columns whose type differs from
  file to file. Python exceptions are values of \<open>py_error\<close>; a function that can raise
  returns \<open>py_error + 'a\<close>, with \<open>Inl\<close> for the exception.

  Strings are \<open>char list\<close>s. The character classes below are the ASCII part of Python's
  classes; characters outside ASCII are neither digits, letters nor spaces here, and
  \<open>lower\<close> leaves them alone.
\<close>

datatype py_error =
  IndexError | KeyError | ValueError | AttributeError | TypeError | ToDatetimeError

record date =
  year :: nat
  month :: nat
  day :: nat

subsection \<open>Characters\<close>

definition is_digit :: "char \<Rightarrow> bool" where
  "is_digit c = (c \<in> set ''0123456789'')"

definition is_upper :: "char \<Rightarrow> bool" where
  "is_upper c = (c \<in> set ''ABCDEFGHIJKLMNOPQRSTUVWXYZ'')"

definition is_lower :: "char \<Rightarrow> bool" where
  "is_lower c = (c \<in> set ''abcdefghijklmnopqrstuvwxyz'')"

text \<open>\<^verbatim>\<open>\w\<close> of the \<^verbatim>\<open>re\<close> module: letters, digits and the underscore.\<close>

definition is_word :: "char \<Rightarrow> bool" where
  "is_word c = (is_digit c \<or> is_upper c \<or> is_lower c \<or> c = CHR ''_'')"

text \<open>
  \<^verbatim>\<open>\s\<close> and \<^verbatim>\<open>str.isspace\<close>: tab, line feed, vertical tab, form feed, carriage return,
  the four separators \<^verbatim>\<open>\x1c\<close> to \<^verbatim>\<open>\x1f\<close>, and the space.
\<close>

definition is_space :: "char \<Rightarrow> bool" where
  "is_space c = (c \<in> set [CHR 0x09, CHR 0x0A, CHR 0x0B, CHR 0x0C, CHR 0x0D,
                            CHR 0x1C, CHR 0x1D, CHR 0x1E, CHR 0x1F, CHR 0x20])"

definition to_lower :: "char \<Rightarrow> char" where
  "to_lower c =
     (case map_of (zip ''ABCDEFGHIJKLMNOPQRSTUVWXYZ'' ''abcdefghijklmnopqrstuvwxyz'') c of
        Some l \<Rightarrow> l
      | None \<Rightarrow> c)"

text \<open>\<^verbatim>\<open>str.lower\<close>.\<close>

definition lower :: "string \<Rightarrow> string" where
  "lower s = map to_lower s"

definition digit_val :: "char \<Rightarrow> nat" where
  "digit_val c = of_char c - 48"

text \<open>The number a string of decimal digits denotes, most significant digit first.\<close>

definition nat_of_digits :: "string \<Rightarrow> nat" where
  "nat_of_digits ds = foldl (\<lambda>n c. 10 * n + digit_val c) 0 ds"

subsection \<open>String methods\<close>

text \<open>
  \<^verbatim>\<open>s.split(sep)\<close> for a separator of one character: every occurrence cuts, so the
  result is never empty (\<^verbatim>\<open>"".split("_") == [""]\<close>).
\<close>

fun split :: "char \<Rightarrow> string \<Rightarrow> string list" where
  "split sep [] = [[]]"
| "split sep (c # cs) =
     (if c = sep then [] # split sep cs
      else (case split sep cs of
              w # ws \<Rightarrow> (c # w) # ws
            | [] \<Rightarrow> [[c]]))"

text \<open>\<^verbatim>\<open>xs[-1]\<close> and \<^verbatim>\<open>xs[0]\<close>: \<^verbatim>\<open>IndexError\<close> on the empty list.\<close>

definition index_last :: "'a list \<Rightarrow> py_error + 'a" where
  "index_last xs = (if xs = [] then Inl IndexError else Inr (last xs))"

definition index_first :: "'a list \<Rightarrow> py_error + 'a" where
  "index_first xs = (case xs of [] \<Rightarrow> Inl IndexError | x # _ \<Rightarrow> Inr x)"

text \<open>\<^verbatim>\<open>s.startswith(p)\<close> and \<^verbatim>\<open>s.endswith(p)\<close>.\<close>

definition startswith :: "string \<Rightarrow> string \<Rightarrow> bool" where
  "startswith s p = prefix p s"

definition endswith :: "string \<Rightarrow> string \<Rightarrow> bool" where
  "endswith s p = suffix p s"

text \<open>
  \<^verbatim>\<open>s.replace(old, new)\<close>: every occurrence of \<open>old\<close>, found from the left and without
  overlap, becomes \<open>new\<close>. With an empty \<open>old\<close> Python puts \<open>new\<close> before every
  character and at the end.
\<close>

function replace_scan :: "string \<Rightarrow> string \<Rightarrow> string \<Rightarrow> string" where
  "replace_scan old new s =
     (if s = [] \<or> old = [] then s
      else if prefix old s then new @ replace_scan old new (drop (length old) s)
      else hd s # replace_scan old new (tl s))"
  by pat_completeness auto
termination
  by (relation "measure (\<lambda>(old, new, s). length s)") (auto simp: neq_Nil_conv)

declare replace_scan.simps [simp del]

definition replace :: "string \<Rightarrow> string \<Rightarrow> string \<Rightarrow> string" where
  "replace s old new =
     (if old = [] then new @ concat (map (\<lambda>c. c # new) s) else replace_scan old new s)"

text \<open>\<^verbatim>\<open>s.lstrip(chars)\<close>: leading characters that are in \<open>chars\<close> go.\<close>

definition lstrip :: "string \<Rightarrow> string \<Rightarrow> string" where
  "lstrip s chars = dropWhile (\<lambda>c. c \<in> set chars) s"

subsection \<open>\<^verbatim>\<open>datetime.strptime(s, "%b/%Y")\<close>\<close>

text \<open>
  The standard library turns the format \<^verbatim>\<open>%b/%Y\<close> into the regular expression
  \<^verbatim>\<open>(?P<b>jan|feb|mar|apr|may|jun|jul|aug|sep|oct|nov|dec)/(?P<Y>\d\d\d\d)\<close>, matches it
  at the start of the string without regard to letter case, and raises
  \<^verbatim>\<open>ValueError\<close> when it does not match, when text remains after the match, or when the
  year is 0. The date is the first day of the month (C locale).
\<close>

definition month_abbrs :: "string list" where
  "month_abbrs = [''jan'', ''feb'', ''mar'', ''apr'', ''may'', ''jun'',
                  ''jul'', ''aug'', ''sep'', ''oct'', ''nov'', ''dec'']"

fun index_of :: "'a \<Rightarrow> 'a list \<Rightarrow> nat option" where
  "index_of x [] = None"
| "index_of x (y # ys) =
     (if x = y then Some 0 else map_option Suc (index_of x ys))"

definition month_number :: "string \<Rightarrow> nat option" where
  "month_number m = map_option Suc (index_of (lower m) month_abbrs)"

definition strptime_b_Y :: "string \<Rightarrow> py_error + date" where
  "strptime_b_Y s =
     (case month_number (take 3 s) of
        None \<Rightarrow> Inl ValueError
      | Some m \<Rightarrow>
          (if length s = 8 \<and> s ! 3 = CHR ''/'' \<and> list_all is_digit (drop 4 s)
              \<and> 0 < nat_of_digits (drop 4 s)
           then Inr \<lparr>year = nat_of_digits (drop 4 s), month = m, day = 1\<rparr>
           else Inl ValueError))"

section \<open>The transformer's helpers\<close>

subsection \<open>\<^verbatim>\<open>extract_month_year_from_filename\<close>\<close>

text \<open>
  Lines 16 to 24 of \<^verbatim>\<open>main.py\<close>: the text after the last underscore and before the first
  point, in lower case; a token that starts with \<^verbatim>\<open>jly\<close> becomes \<^verbatim>\<open>jul\<close> (the whole
  token, whatever followed); a token that ends with \<^verbatim>\<open>24\<close> has every \<^verbatim>\<open>24\<close> replaced
  by \<^verbatim>\<open>/2024\<close>, any other gets \<^verbatim>\<open>/2023\<close> appended.
\<close>

definition filename_token :: "string \<Rightarrow> py_error + string" where
  "filename_token filename =
     (case index_last (split CHR ''_'' filename) of
        Inl e \<Rightarrow> Inl e
      | Inr t \<Rightarrow>
          (case index_first (split CHR ''.'' t) of
             Inl e \<Rightarrow> Inl e
           | Inr m \<Rightarrow> Inr (lower m)))"

definition normalise_jly :: "string \<Rightarrow> string" where
  "normalise_jly m = (if startswith m ''jly'' then ''jul'' else m)"

definition with_year :: "string \<Rightarrow> string" where
  "with_year m = (if endswith m ''24'' then replace m ''24'' ''/2024'' else m @ ''/2023'')"

text \<open>
  Lines 25 to 30: the \<^verbatim>\<open>try\<close> covers the parse only; every exception of the parse is
  caught and the function returns \<^verbatim>\<open>None\<close>. What is computed before the \<^verbatim>\<open>try\<close> is
  not caught.
\<close>

definition extract_month_year_from_filename :: "string \<Rightarrow> py_error + date option" where
  "extract_month_year_from_filename filename =
     (case filename_token filename of
        Inl e \<Rightarrow> Inl e
      | Inr m \<Rightarrow>
          (case strptime_b_Y (with_year (normalise_jly m)) of
             Inl e \<Rightarrow> Inr None
           | Inr d \<Rightarrow> Inr (Some d)))"

subsection \<open>\<^verbatim>\<open>float(s)\<close>\<close>

text \<open>
  A Python \<^verbatim>\<open>float\<close>: a finite number, one of the two infinities, or \<^verbatim>\<open>nan\<close>. A finite
  float is modelled by the rational number it was written as; the rounding of that number
  to the nearest binary double is not modelled, so two texts that round to the same
  double are different values here, and a number too small for a double stays the small
  number it is instead of becoming zero. Overflow is modelled: a number of magnitude
  \<open>2 ^ 1024 - 2 ^ 970\<close> or more rounds to an infinity.
\<close>

datatype pyfloat = Finite rat | PosInf | NegInf | NaN

text \<open>
  \<^verbatim>\<open>float\<close> on a string, for text in ASCII. White space around the number is dropped
  (tab, line feed, vertical tab, form feed, carriage return, space); a sign may come
  first; then \<^verbatim>\<open>inf\<close>, \<^verbatim>\<open>infinity\<close> or \<^verbatim>\<open>nan\<close> in any letter case, or a decimal number:
  digits with at most one point and at least one digit, and an optional exponent
  \<^verbatim>\<open>e\<close> or \<^verbatim>\<open>E\<close> with its own sign. Digits may be grouped by single underscores.
  Anything else raises \<^verbatim>\<open>ValueError\<close>.
\<close>

definition is_c_space :: "char \<Rightarrow> bool" where
  "is_c_space c = (c \<in> set [CHR 0x09, CHR 0x0A, CHR 0x0B, CHR 0x0C, CHR 0x0D, CHR 0x20])"

definition strip_c_space :: "string \<Rightarrow> string" where
  "strip_c_space s = rev (dropWhile is_c_space (rev (dropWhile is_c_space s)))"

text \<open>Digits, with single underscores between digits only.\<close>

fun digitpart :: "string \<Rightarrow> bool" where
  "digitpart [] = False"
| "digitpart [c] = is_digit c"
| "digitpart (c # d # cs) =
     (is_digit c \<and> (if d = CHR ''_'' then digitpart cs else digitpart (d # cs)))"

definition digits_of :: "string \<Rightarrow> string" where
  "digits_of s = filter is_digit s"

definition decimal_value :: "string \<Rightarrow> string \<Rightarrow> rat" where
  "decimal_value ip fp =
     of_nat (nat_of_digits ip) + of_nat (nat_of_digits fp) / 10 ^ length fp"

text \<open>The digits before and after the point, \<open>None\<close> when the text is no such number.\<close>

definition parse_mantissa :: "string \<Rightarrow> rat option" where
  "parse_mantissa m =
     (let ip = takeWhile (\<lambda>c. c \<noteq> CHR ''.'') m in
      case dropWhile (\<lambda>c. c \<noteq> CHR ''.'') m of
        [] \<Rightarrow> if digitpart ip then Some (decimal_value (digits_of ip) []) else None
      | p # fp \<Rightarrow>
          if (ip = [] \<or> digitpart ip) \<and> (fp = [] \<or> digitpart fp) \<and> (ip \<noteq> [] \<or> fp \<noteq> [])
          then Some (decimal_value (digits_of ip) (digits_of fp)) else None)"

text \<open>What follows \<^verbatim>\<open>e\<close>: the exponent.\<close>

definition parse_exponent :: "string \<Rightarrow> int option" where
  "parse_exponent x =
     (case x of
        [] \<Rightarrow> None
      | c # ds \<Rightarrow>
          if c = CHR ''-'' then (if digitpart ds then Some (- int (nat_of_digits (digits_of ds))) else None)
          else if c = CHR ''+'' then (if digitpart ds then Some (int (nat_of_digits (digits_of ds))) else None)
          else if digitpart x then Some (int (nat_of_digits (digits_of x))) else None)"

definition scale10 :: "rat \<Rightarrow> int \<Rightarrow> rat" where
  "scale10 v e = (if 0 \<le> e then v * 10 ^ nat e else v / 10 ^ nat (- e))"

definition is_exponent_mark :: "char \<Rightarrow> bool" where
  "is_exponent_mark c = (c = CHR ''e'' \<or> c = CHR ''E'')"

text \<open>An unsigned number: the mantissa, then the exponent if there is one.\<close>

definition parse_number :: "string \<Rightarrow> rat option" where
  "parse_number t =
     (case parse_mantissa (takeWhile (\<lambda>c. \<not> is_exponent_mark c) t) of
        None \<Rightarrow> None
      | Some v \<Rightarrow>
          (case dropWhile (\<lambda>c. \<not> is_exponent_mark c) t of
             [] \<Rightarrow> Some v
           | e # x \<Rightarrow> map_option (scale10 v) (parse_exponent x)))"

text \<open>The least magnitude that rounds to an infinity, \<open>2 ^ 1024 - 2 ^ 970\<close>, written out.\<close>

definition overflow_bound :: rat where
  "overflow_bound =
     179769313486231580793728971405303415079934132710037826936173778980444968292764750946649017977587207096330286416692887910946555547851940402630657488671505820681908902000708383676273854845817711531764475730270069855571366959622842914819860834936475292719074168444365510704342711559699508093042880177904174497792"

text \<open>The unsigned text after the sign, and the sign put back.\<close>

definition parse_unsigned :: "string \<Rightarrow> pyfloat option" where
  "parse_unsigned t =
     (if lower t = ''inf'' \<or> lower t = ''infinity'' then Some PosInf
      else if lower t = ''nan'' then Some NaN
      else map_option (\<lambda>v. if overflow_bound \<le> v then PosInf else Finite v) (parse_number t))"

definition negate :: "pyfloat \<Rightarrow> pyfloat" where
  "negate x = (case x of Finite v \<Rightarrow> Finite (- v) | PosInf \<Rightarrow> NegInf | NegInf \<Rightarrow> PosInf | NaN \<Rightarrow> NaN)"

definition py_float :: "string \<Rightarrow> py_error + pyfloat" where
  "py_float s =
     (let t = strip_c_space s;
          r = (case t of
                 [] \<Rightarrow> None
               | c # u \<Rightarrow>
                   if c = CHR ''-'' then map_option negate (parse_unsigned u)
                   else if c = CHR ''+'' then parse_unsigned u
                   else parse_unsigned t)
      in case r of None \<Rightarrow> Inl ValueError | Some x \<Rightarrow> Inr x)"

subsection \<open>The pattern of \<^verbatim>\<open>extract_total_from_task_details\<close>\<close>

text \<open>
  Line 36: \<^verbatim>\<open>\btotal\b[^\d]*\s*\:\s*\$([\d,]+\.\d{2})\<close>, searched with
  \<^verbatim>\<open>re.IGNORECASE\<close>. The matcher below is the backtracking matcher of the \<^verbatim>\<open>re\<close>
  module written for this pattern, piece by piece: each piece takes the text still to
  be read and the matcher of what follows it (its continuation), and a starred piece
  tries the longest repetition first and gives characters back one at a time while what
  follows fails. The result is the text of group 1.
\<close>

text \<open>\<^verbatim>\<open>\b\<close>: exactly one side of the position is a word character.\<close>

definition word_boundary :: "char option \<Rightarrow> string \<Rightarrow> bool" where
  "word_boundary prev rest =
     ((case prev of None \<Rightarrow> False | Some c \<Rightarrow> is_word c)
        \<noteq> (case rest of [] \<Rightarrow> False | c # _ \<Rightarrow> is_word c))"

text \<open>A single character \<open>c\<close>, then \<open>k\<close>.\<close>

definition lit :: "char \<Rightarrow> (string \<Rightarrow> 'a option) \<Rightarrow> string \<Rightarrow> 'a option" where
  "lit c k s = (case s of [] \<Rightarrow> None | x # xs \<Rightarrow> if x = c then k xs else None)"

text \<open>\<open>p*\<close> then \<open>k\<close>, greedy.\<close>

fun star :: "(char \<Rightarrow> bool) \<Rightarrow> (string \<Rightarrow> 'a option) \<Rightarrow> string \<Rightarrow> 'a option" where
  "star p k [] = k []"
| "star p k (c # cs) =
     (if p c then (case star p k cs of Some r \<Rightarrow> Some r | None \<Rightarrow> k (c # cs))
      else k (c # cs))"

text \<open>
  \<open>p*\<close> inside the group: as \<open>star\<close>, and the text read since the group opened is
  handed to the continuation.
\<close>

fun star_cap ::
  "(char \<Rightarrow> bool) \<Rightarrow> (string \<Rightarrow> string \<Rightarrow> 'a option) \<Rightarrow> string \<Rightarrow> string \<Rightarrow> 'a option" where
  "star_cap p k acc [] = k acc []"
| "star_cap p k acc (c # cs) =
     (if p c then (case star_cap p k (acc @ [c]) cs of Some r \<Rightarrow> Some r | None \<Rightarrow> k acc (c # cs))
      else k acc (c # cs))"

text \<open>\<^verbatim>\<open>[\d,]\<close>\<close>

definition digit_or_comma :: "char \<Rightarrow> bool" where
  "digit_or_comma c = (is_digit c \<or> c = CHR '','')"

text \<open>\<^verbatim>\<open>\.\d{2}\<close> and the end of the group: the match is complete.\<close>

definition cents :: "string \<Rightarrow> string \<Rightarrow> string option" where
  "cents acc s =
     (case s of
        p # d1 # d2 # _ \<Rightarrow>
          if p = CHR ''.'' \<and> is_digit d1 \<and> is_digit d2 then Some (acc @ [p, d1, d2]) else None
      | _ \<Rightarrow> None)"

text \<open>\<^verbatim>\<open>([\d,]+\.\d{2})\<close>: one character of the class, then \<open>star_cap\<close>.\<close>

definition amount :: "string \<Rightarrow> string option" where
  "amount s =
     (case s of
        [] \<Rightarrow> None
      | c # cs \<Rightarrow> if digit_or_comma c then star_cap digit_or_comma cents [c] cs else None)"

text \<open>\<^verbatim>\<open>[^\d]*\s*\:\s*\$(...)\<close>, what follows the word.\<close>

definition after_total :: "string \<Rightarrow> string option" where
  "after_total s =
     star (\<lambda>c. \<not> is_digit c)
       (star is_space (lit CHR '':'' (star is_space (lit CHR ''$'' amount)))) s"

text \<open>
  The whole pattern at one position: \<open>prev\<close> is the character before the position,
  \<open>s\<close> the text from it on. The word is compared without regard to case.
\<close>

definition match_at :: "char option \<Rightarrow> string \<Rightarrow> string option" where
  "match_at prev s =
     (if word_boundary prev s \<and> lower (take 5 s) = ''total''
         \<and> word_boundary (Some (s ! 4)) (drop 5 s)
      then after_total (drop 5 s) else None)"

text \<open>\<^verbatim>\<open>re.search\<close>: the first position, from the left, where the pattern matches.\<close>

fun search_from :: "char option \<Rightarrow> string \<Rightarrow> string option" where
  "search_from prev [] = match_at prev []"
| "search_from prev (c # cs) =
     (case match_at prev (c # cs) of
        Some g \<Rightarrow> Some g
      | None \<Rightarrow> search_from (Some c) cs)"

definition re_search_total :: "string \<Rightarrow> string option" where
  "re_search_total s = search_from None s"

section \<open>Tables\<close>

text \<open>
  A pandas \<^verbatim>\<open>DataFrame\<close> as the program uses it: named columns in order, each with its
  \<^verbatim>\<open>dtype\<close> and one cell per row. \<open>Null\<close> is the missing value (\<^verbatim>\<open>NaN\<close>, \<^verbatim>\<open>None\<close>,
  \<^verbatim>\<open>NaT\<close>), \<open>Num\<close> a finite number, \<open>Infinite\<close> an infinity (\<open>True\<close> for the negative
  one), \<open>Stamp\<close> a timestamp, \<open>Day\<close> a \<^verbatim>\<open>datetime.date\<close>.
  \<^verbatim>\<open>read_csv\<close> gives every column of a file the same number of cells and distinct
  names (\<open>wf_frame\<close>).
\<close>

datatype cell = Null | Text string | Num rat | Infinite bool | Flag bool | Stamp int | Day date

datatype dtype = Object | Int64 | Float64 | Bool | Datetime64

record column =
  dtype :: dtype
  cells :: "cell list"

record frame =
  nrows :: nat
  columns :: "(string \<times> column) list"

text \<open>A float as the cell of a table: \<^verbatim>\<open>nan\<close> is the missing value.\<close>

definition float_cell :: "pyfloat \<Rightarrow> cell" where
  "float_cell x =
     (case x of Finite v \<Rightarrow> Num v | PosInf \<Rightarrow> Infinite False | NegInf \<Rightarrow> Infinite True
      | NaN \<Rightarrow> Null)"

definition column_names :: "frame \<Rightarrow> string list" where
  "column_names df = map fst (columns df)"

definition wf_frame :: "frame \<Rightarrow> bool" where
  "wf_frame df =
     (distinct (column_names df) \<and> list_all (\<lambda>nc. length (cells (snd nc)) = nrows df) (columns df))"

text \<open>\<^verbatim>\<open>col in df.columns\<close>\<close>

definition has_column :: "frame \<Rightarrow> string \<Rightarrow> bool" where
  "has_column df c = (c \<in> set (column_names df))"

text \<open>\<^verbatim>\<open>df[col]\<close>: \<^verbatim>\<open>KeyError\<close> when there is no such column.\<close>

definition get_column :: "frame \<Rightarrow> string \<Rightarrow> py_error + column" where
  "get_column df c = (case map_of (columns df) c of None \<Rightarrow> Inl KeyError | Some x \<Rightarrow> Inr x)"

text \<open>
  \<^verbatim>\<open>df[col] = series\<close>: an existing column is replaced where it stands, a new one is
  appended.
\<close>

definition set_column :: "frame \<Rightarrow> string \<Rightarrow> column \<Rightarrow> frame" where
  "set_column df c x = df\<lparr>columns := AList.update c x (columns df)\<rparr>"

text \<open>\<^verbatim>\<open>df[col] = scalar\<close>: the scalar in every row.\<close>

definition scalar_column :: "frame \<Rightarrow> dtype \<Rightarrow> cell \<Rightarrow> column" where
  "scalar_column df t x = \<lparr>dtype = t, cells = replicate (nrows df) x\<rparr>"

text \<open>
  \<^verbatim>\<open>df.drop(columns=labels, inplace=True)\<close> with the default \<^verbatim>\<open>errors="raise"\<close>:
  \<^verbatim>\<open>KeyError\<close> when a label is not a column.
\<close>

definition drop_columns :: "frame \<Rightarrow> string list \<Rightarrow> py_error + frame" where
  "drop_columns df labels =
     (if list_all (has_column df) labels
      then Inr (df\<lparr>columns := filter (\<lambda>nc. fst nc \<notin> set labels) (columns df)\<rparr>)
      else Inl KeyError)"

text \<open>A loop whose body can raise: the first exception ends it.\<close>

fun for_each :: "('s \<Rightarrow> 'a \<Rightarrow> py_error + 's) \<Rightarrow> 'a list \<Rightarrow> 's \<Rightarrow> py_error + 's" where
  "for_each f [] s = Inr s"
| "for_each f (x # xs) s = (case f s x of Inl e \<Rightarrow> Inl e | Inr s' \<Rightarrow> for_each f xs s')"

fun map_err :: "('a \<Rightarrow> py_error + 'b) \<Rightarrow> 'a list \<Rightarrow> py_error + 'b list" where
  "map_err f [] = Inr []"
| "map_err f (x # xs) =
     (case f x of
        Inl e \<Rightarrow> Inl e
      | Inr y \<Rightarrow> (case map_err f xs of Inl e \<Rightarrow> Inl e | Inr ys \<Rightarrow> Inr (y # ys)))"

subsection \<open>What pandas and numpy do that the program does not spell out\<close>

text \<open>
  Four library functions are parameters of the model; the program calls them and their
  code is not part of it:
  \<^item> \<open>to_datetime\<close>: \<^verbatim>\<open>pd.to_datetime\<close> on a column, \<open>None\<close> when it raises;
  \<^item> \<open>argsort\<close>: numpy's \<^verbatim>\<open>argsort(kind="quicksort")\<close> on dates, the default kind of
    \<^verbatim>\<open>sort_values\<close>: the positions of the keys in ascending order of the keys;
  \<^item> \<open>py_str\<close>: \<^verbatim>\<open>str\<close> of a value that is neither text nor missing;
  \<^item> \<open>value_counts\<close>: \<^verbatim>\<open>Series.value_counts(dropna=False)\<close>, the distinct values with
    their counts, most frequent first.
\<close>

record library =
  to_datetime :: "column \<Rightarrow> column option"
  argsort :: "date list \<Rightarrow> nat list"
  py_str :: "cell \<Rightarrow> string"
  value_counts :: "cell list \<Rightarrow> (cell \<times> nat) list"

text \<open>Dates compare by year, then month, then day.\<close>

definition date_le :: "date \<Rightarrow> date \<Rightarrow> bool" where
  "date_le a b =
     (year a < year b \<or> (year a = year b \<and> (month a < month b \<or> (month a = month b \<and> day a \<le> day b))))"

text \<open>
  What numpy promises of \<open>argsort\<close>: a permutation of the positions that puts the keys in
  ascending order. For \<^verbatim>\<open>kind="quicksort"\<close> nothing is promised about keys that are equal.
\<close>

definition sorting_permutation :: "(date list \<Rightarrow> nat list) \<Rightarrow> bool" where
  "sorting_permutation f =
     (\<forall>ks. mset (f ks) = mset [0..<length ks] \<and> sorted_wrt date_le (map (\<lambda>i. ks ! i) (f ks)))"

section \<open>\<^verbatim>\<open>CSVTransformer\<close>\<close>

subsection \<open>\<^verbatim>\<open>extract_total_from_task_details\<close>\<close>

text \<open>
  Lines 32 to 43. \<^verbatim>\<open>pd.isna\<close> holds of the missing value only, and only text passes
  \<^verbatim>\<open>isinstance(task_details, str)\<close>. \<^verbatim>\<open>float\<close> can raise; that it never does here is
  proved below.
\<close>

definition extract_total_from_task_details :: "cell \<Rightarrow> py_error + pyfloat" where
  "extract_total_from_task_details task_details =
     (case task_details of
        Text s \<Rightarrow>
          (case re_search_total s of
             Some total_amount \<Rightarrow> py_float (replace total_amount '','' [])
           | None \<Rightarrow> Inr (Finite 0))
      | _ \<Rightarrow> Inr (Finite 0))"

subsection \<open>\<^verbatim>\<open>transform_columns\<close>\<close>

definition date_columns :: "string list" where
  "date_columns = [''completeBeforeTime'', ''completeAfterTime'', ''creationTime'',
                   ''startTime'', ''completionTime'', ''departureTime'', ''arrivalTime'']"

definition object_columns :: "string list" where
  "object_columns = [''forceCompletedBy'', ''dependencies'', ''metadata'']"

definition lonlat_columns :: "string list" where
  "lonlat_columns = [''destinationLonLat'', ''completionLonLat'', ''startLonLat'',
                     ''departureLonLat'', ''arrivalLonLat'']"

text \<open>Lines 55 to 57, the body of the loop over \<open>date_columns\<close>.\<close>

definition convert_date :: "library \<Rightarrow> frame \<Rightarrow> string \<Rightarrow> py_error + frame" where
  "convert_date L df col =
     (if has_column df col then
        (case get_column df col of
           Inl e \<Rightarrow> Inl e
         | Inr x \<Rightarrow>
             if dtype x \<noteq> Datetime64 then
               (case to_datetime L x of
                  None \<Rightarrow> Inl ToDatetimeError
                | Some x' \<Rightarrow> Inr (set_column df col x'))
             else Inr df)
      else Inr df)"

text \<open>Lines 60 to 62: \<^verbatim>\<open>astype("object")\<close> keeps the values.\<close>

definition convert_object :: "frame \<Rightarrow> string \<Rightarrow> py_error + frame" where
  "convert_object df col =
     (if has_column df col then
        (case get_column df col of
           Inl e \<Rightarrow> Inl e
         | Inr x \<Rightarrow> if dtype x \<noteq> Object then Inr (set_column df col (x\<lparr>dtype := Object\<rparr>)) else Inr df)
      else Inr df)"

text \<open>
  The \<^verbatim>\<open>.str\<close> accessor: \<^verbatim>\<open>AttributeError\<close> unless the column holds Python objects; a cell
  that is not text gives the missing value under every \<^verbatim>\<open>.str\<close> method.
\<close>

definition str_accessor :: "column \<Rightarrow> py_error + cell list" where
  "str_accessor x = (if dtype x = Object then Inr (cells x) else Inl AttributeError)"

definition str_lstrip :: "string \<Rightarrow> cell \<Rightarrow> cell" where
  "str_lstrip chars x = (case x of Text s \<Rightarrow> Text (lstrip s chars) | _ \<Rightarrow> Null)"

text \<open>
  \<^verbatim>\<open>.str.split(",", expand=True)\<close>: the parts of each text cell, \<open>None\<close> for a cell that is
  not text; the expanded table has as many columns as the longest row has parts, a row
  without text counting for one, and no column when there is no row. A row with fewer
  parts is filled with missing values.
\<close>

definition str_split :: "char \<Rightarrow> cell \<Rightarrow> string list option" where
  "str_split sep x = (case x of Text s \<Rightarrow> Some (split sep s) | _ \<Rightarrow> None)"

definition expand_width :: "string list option list \<Rightarrow> nat" where
  "expand_width parts =
     fold max (map (\<lambda>p. case p of None \<Rightarrow> 1 | Some ps \<Rightarrow> length ps) parts) 0"

text \<open>Column \<open>j\<close> of the expanded table after \<^verbatim>\<open>.astype(float)\<close>, for one row.\<close>

definition float_part :: "nat \<Rightarrow> string list option \<Rightarrow> py_error + cell" where
  "float_part j p =
     (case p of
        None \<Rightarrow> Inr Null
      | Some ps \<Rightarrow>
          if j < length ps
          then (case py_float (ps ! j) of Inl e \<Rightarrow> Inl e | Inr v \<Rightarrow> Inr (float_cell v))
          else Inr Null)"

text \<open>
  Lines 72 to 77, the body of the loop over \<open>lonlat_columns\<close>. Assigning a table to two
  column names raises \<^verbatim>\<open>ValueError\<close> unless the table has two columns; \<^verbatim>\<open>astype(float)\<close>
  raises \<^verbatim>\<open>ValueError\<close> too, so the order of the two checks does not show.
\<close>

definition split_lonlat :: "frame \<Rightarrow> string \<Rightarrow> py_error + frame" where
  "split_lonlat df col =
     (if has_column df col then
        (case get_column df col of
           Inl e \<Rightarrow> Inl e
         | Inr x \<Rightarrow>
            (case str_accessor x of
               Inl e \<Rightarrow> Inl e
             | Inr xs \<Rightarrow>
                 (let stripped = map (str_lstrip [CHR 0x60]) xs;
                      df1 = set_column df col \<lparr>dtype = Object, cells = stripped\<rparr>;
                      new_col = replace col ''LonLat'' [];
                      parts = map (str_split CHR '','') stripped
                  in if expand_width parts \<noteq> 2 then Inl ValueError
                     else
                       (case map_err (float_part 0) parts of
                          Inl e \<Rightarrow> Inl e
                        | Inr lons \<Rightarrow>
                            (case map_err (float_part 1) parts of
                               Inl e \<Rightarrow> Inl e
                             | Inr lats \<Rightarrow>
                                 Inr (set_column
                                        (set_column df1 (new_col @ ''_Longitude'')
                                           \<lparr>dtype = Float64, cells = lons\<rparr>)
                                        (new_col @ ''_Latitude'')
                                        \<lparr>dtype = Float64, cells = lats\<rparr>))))))
      else Inr df)"

text \<open>
  Lines 79 to 82. \<^verbatim>\<open>astype(str)\<close> turns the missing value into the text \<^verbatim>\<open>nan\<close>; the
  \<^verbatim>\<open>replace\<close> of line 82 works on the column of the table itself (pandas before
  copy-on-write), so the table is changed.
\<close>

definition astype_str :: "library \<Rightarrow> cell \<Rightarrow> cell" where
  "astype_str L x = (case x of Null \<Rightarrow> Text ''nan'' | Text s \<Rightarrow> Text s | _ \<Rightarrow> Text (py_str L x))"

definition replace_value :: "cell \<Rightarrow> cell \<Rightarrow> cell \<Rightarrow> cell" where
  "replace_value old new x = (if x = old then new else x)"

definition clean_recipients :: "library \<Rightarrow> frame \<Rightarrow> py_error + frame" where
  "clean_recipients L df =
     (if has_column df ''recipientsNumbers'' then
        (case get_column df ''recipientsNumbers'' of
           Inl e \<Rightarrow> Inl e
         | Inr x \<Rightarrow>
             (let df1 = set_column df ''recipientsNumbers''
                          \<lparr>dtype = Object, cells = map (astype_str L) (cells x)\<rparr>
              in case get_column df1 ''recipientsNumbers'' of
                   Inl e \<Rightarrow> Inl e
                 | Inr x1 \<Rightarrow>
                     (case str_accessor x1 of
                        Inl e \<Rightarrow> Inl e
                      | Inr xs \<Rightarrow>
                          (let df2 = set_column df1 ''recipientsNumbers''
                                       \<lparr>dtype = Object, cells = map (str_lstrip [CHR 0x60]) xs\<rparr>
                           in case get_column df2 ''recipientsNumbers'' of
                                Inl e \<Rightarrow> Inl e
                              | Inr x2 \<Rightarrow>
                                  Inr (set_column df2 ''recipientsNumbers''
                                         (x2\<lparr>cells := map (replace_value (Text ''nan'') Null) (cells x2)\<rparr>))))))
      else Inr df)"

text \<open>Lines 45 to 86.\<close>

definition transform_columns :: "library \<Rightarrow> frame \<Rightarrow> py_error + frame" where
  "transform_columns L df =
     (case for_each (convert_date L) date_columns df of
        Inl e \<Rightarrow> Inl e
      | Inr df1 \<Rightarrow>
          (case for_each convert_object object_columns df1 of
             Inl e \<Rightarrow> Inl e
           | Inr df2 \<Rightarrow>
               (case for_each split_lonlat lonlat_columns df2 of
                  Inl e \<Rightarrow> Inl e
                | Inr df3 \<Rightarrow>
                    (case clean_recipients L df3 of
                       Inl e \<Rightarrow> Inl e
                     | Inr df4 \<Rightarrow> drop_columns df4 lonlat_columns))))"

subsection \<open>\<^verbatim>\<open>transform_and_union\<close>\<close>

text \<open>\<^verbatim>\<open>os.path.basename\<close>: what follows the last \<^verbatim>\<open>/\<close>.\<close>

definition basename :: "string \<Rightarrow> string" where
  "basename path = last (split CHR ''/'' path)"

definition month_year_cell :: "date option \<Rightarrow> cell" where
  "month_year_cell d = (case d of None \<Rightarrow> Null | Some x \<Rightarrow> Day x)"

text \<open>
  Lines 92 to 102, the body of the loop, for one name that the glob matched and the
  table \<^verbatim>\<open>read_csv\<close> made of the file. The date is taken from the whole path.
\<close>

definition prepare_file :: "library \<Rightarrow> string \<times> frame \<Rightarrow> py_error + frame" where
  "prepare_file L file =
     (let path = fst file; base_filename = basename path in
      case extract_month_year_from_filename path of
        Inl e \<Rightarrow> Inl e
      | Inr month_year \<Rightarrow>
          (case transform_columns L (snd file) of
             Inl e \<Rightarrow> Inl e
           | Inr df \<Rightarrow>
               (let df1 = set_column df ''Filename'' (scalar_column df Object (Text base_filename));
                    df2 = set_column df1 ''Month/Year''
                            (scalar_column df1 Object (month_year_cell month_year))
                in case get_column df2 ''taskDetails'' of
                     Inl e \<Rightarrow> Inl e
                   | Inr x \<Rightarrow>
                       (case map_err extract_total_from_task_details (cells x) of
                          Inl e \<Rightarrow> Inl e
                        | Inr totals \<Rightarrow>
                            Inr (set_column df2 ''TotalAmount''
                                   \<lparr>dtype = Float64, cells = map float_cell totals\<rparr>)))))"

text \<open>
  The combined table: the names of its columns and its rows, each row with one cell per
  name. The program reads no \<^verbatim>\<open>dtype\<close> after the concatenation, so none is kept.
\<close>

record sheet =
  header :: "string list"
  body :: "cell list list"

definition nth_or_null :: "cell list \<Rightarrow> nat \<Rightarrow> cell" where
  "nth_or_null xs i = (if i < length xs then xs ! i else Null)"

text \<open>The names of all the tables, each once, in the order they first come.\<close>

definition union_names :: "frame list \<Rightarrow> string list" where
  "union_names dfs =
     foldl (\<lambda>acc n. if n \<in> set acc then acc else acc @ [n]) [] (concat (map column_names dfs))"

definition frame_row :: "string list \<Rightarrow> frame \<Rightarrow> nat \<Rightarrow> cell list" where
  "frame_row names df i =
     map (\<lambda>n. case map_of (columns df) n of None \<Rightarrow> Null | Some x \<Rightarrow> nth_or_null (cells x) i) names"

definition frame_rows :: "string list \<Rightarrow> frame \<Rightarrow> cell list list" where
  "frame_rows names df = map (frame_row names df) [0..<nrows df]"

text \<open>
  \<^verbatim>\<open>pd.concat(all_data, ignore_index=True)\<close>: \<^verbatim>\<open>ValueError\<close> on the empty list; else the
  rows of the tables one after the other, under the union of the columns, a table that
  lacks a column giving missing values there.
\<close>

definition concat_frames :: "frame list \<Rightarrow> py_error + sheet" where
  "concat_frames dfs =
     (if dfs = [] then Inl ValueError
      else Inr \<lparr>header = union_names dfs,
                body = concat (map (frame_rows (union_names dfs)) dfs)\<rparr>)"

text \<open>
  \<^verbatim>\<open>sort_values(by=...)\<close> with every default (\<^verbatim>\<open>kind="quicksort"\<close>, ascending,
  \<^verbatim>\<open>na_position="last"\<close>), as pandas' \<^verbatim>\<open>nargsort\<close> computes the order: the rows with a key
  are ordered by \<open>argsort\<close> on their keys, the rows without a key follow in the order they
  had. The positions \<open>argsort\<close> returns are positions of the keys it was given.
\<close>

definition nargsort :: "(date list \<Rightarrow> nat list) \<Rightarrow> date option list \<Rightarrow> nat list" where
  "nargsort f keys =
     (let idx = [0..<length keys];
          non_nan_idx = filter (\<lambda>i. keys ! i \<noteq> None) idx;
          nan_idx = filter (\<lambda>i. keys ! i = None) idx;
          non_nans = map (\<lambda>i. the (keys ! i)) non_nan_idx
      in map (\<lambda>k. non_nan_idx ! k) (f non_nans) @ nan_idx)"

definition take_rows :: "'a list \<Rightarrow> nat list \<Rightarrow> 'a list" where
  "take_rows xs indexer = map (\<lambda>i. xs ! i) indexer"

text \<open>
  The key of a row under \<^verbatim>\<open>Month/Year\<close>: line 99 puts a date or \<^verbatim>\<open>None\<close> there. Python
  cannot compare a date with a value of another type.
\<close>

definition date_key :: "cell \<Rightarrow> py_error + date option" where
  "date_key x = (case x of Null \<Rightarrow> Inr None | Day d \<Rightarrow> Inr (Some d) | _ \<Rightarrow> Inl TypeError)"

definition sort_values :: "library \<Rightarrow> sheet \<Rightarrow> string \<Rightarrow> py_error + sheet" where
  "sort_values L t by =
     (case index_of by (header t) of
        None \<Rightarrow> Inl KeyError
      | Some j \<Rightarrow>
          (case map_err (\<lambda>r. date_key (nth_or_null r j)) (body t) of
             Inl e \<Rightarrow> Inl e
           | Inr keys \<Rightarrow> Inr (t\<lparr>body := take_rows (body t) (nargsort (argsort L) keys)\<rparr>)))"

text \<open>
  Lines 88 to 109. \<open>files\<close> is what the glob matched, each name with the table
  \<^verbatim>\<open>read_csv\<close> made of the file; the result is the table handed to \<^verbatim>\<open>to_excel\<close>. An
  exception leaves no output file.
\<close>

definition transform_and_union :: "library \<Rightarrow> (string \<times> frame) list \<Rightarrow> py_error + sheet" where
  "transform_and_union L files =
     (case map_err (prepare_file L) files of
        Inl e \<Rightarrow> Inl e
      | Inr all_data \<Rightarrow>
          (case concat_frames all_data of
             Inl e \<Rightarrow> Inl e
           | Inr combined_df \<Rightarrow> sort_values L combined_df ''Month/Year''))"

section \<open>\<^verbatim>\<open>CSVValidator\<close>\<close>

text \<open>
  The two dictionaries of the validator, in insertion order. A set of file names is a
  list without repetition; Python fixes no order for a set, the list keeps the order of
  insertion.
\<close>

record validator =
  all_columns :: "(string \<times> (string \<times> string list) list) list"
  top_values :: "(string \<times> (string \<times> string) list) list"

text \<open>\<^verbatim>\<open>d[k]\<close> on a \<^verbatim>\<open>defaultdict\<close>: the default when the key is new.\<close>

definition lookup_default :: "'v \<Rightarrow> ('k \<times> 'v) list \<Rightarrow> 'k \<Rightarrow> 'v" where
  "lookup_default d m k = (case map_of m k of None \<Rightarrow> d | Some v \<Rightarrow> v)"

definition set_add :: "'a \<Rightarrow> 'a list \<Rightarrow> 'a list" where
  "set_add x xs = (if x \<in> set xs then xs else xs @ [x])"

text \<open>\<^verbatim>\<open>str(df[col].dtype)\<close>\<close>

definition dtype_name :: "dtype \<Rightarrow> string" where
  "dtype_name t =
     (case t of Object \<Rightarrow> ''object'' | Int64 \<Rightarrow> ''int64'' | Float64 \<Rightarrow> ''float64''
      | Bool \<Rightarrow> ''bool'' | Datetime64 \<Rightarrow> ''datetime64[ns]'')"

text \<open>\<^verbatim>\<open>sep.join(xs)\<close>\<close>

fun join :: "string \<Rightarrow> string list \<Rightarrow> string" where
  "join sep [] = []"
| "join sep [x] = x"
| "join sep (x # y # ys) = x @ sep @ join sep (y # ys)"

text \<open>\<^verbatim>\<open>str(n)\<close> for a count.\<close>

function str_nat :: "nat \<Rightarrow> string" where
  "str_nat n =
     (if n < 10 then [char_of (48 + n)] else str_nat (n div 10) @ [char_of (48 + n mod 10)])"
  by pat_completeness auto
termination
  by (relation "measure (\<lambda>n. n)") auto

declare str_nat.simps [simp del]

definition str_cell :: "library \<Rightarrow> cell \<Rightarrow> string" where
  "str_cell L x = (case x of Text s \<Rightarrow> s | Null \<Rightarrow> ''nan'' | _ \<Rightarrow> py_str L x)"

text \<open>Lines 119 to 123.\<close>

definition format_top_values :: "library \<Rightarrow> column \<Rightarrow> string" where
  "format_top_values L series =
     (let counts = value_counts L (cells series);
          counts' = (if list_ex (\<lambda>x. x = Null) (cells series)
                     then map (\<lambda>vc. (if fst vc = Null then Text ''NA'' else fst vc, snd vc)) counts
                     else counts)
      in join '', '' (map (\<lambda>vc. str_cell L (fst vc) @ '' ('' @ str_nat (snd vc) @ '')'') (take 5 counts')))"

text \<open>Lines 135 and 136, the body of the loop over the columns of one file.\<close>

definition note_column :: "library \<Rightarrow> string \<Rightarrow> frame \<Rightarrow> validator \<Rightarrow> string \<Rightarrow> py_error + validator" where
  "note_column L base_filename df V col =
     (case get_column df col of
        Inl e \<Rightarrow> Inl e
      | Inr x \<Rightarrow>
          (let type_info = lookup_default [] (all_columns V) col;
               files = lookup_default [] type_info (dtype_name (dtype x));
               type_info' = AList.update (dtype_name (dtype x)) (set_add base_filename files) type_info;
               tops = lookup_default [] (top_values V) col;
               tops' = AList.update base_filename (format_top_values L x) tops
           in Inr \<lparr>all_columns = AList.update col type_info' (all_columns V),
                   top_values = AList.update col tops' (top_values V)\<rparr>))"

record file_stat =
  stat_filename :: string
  stat_month_year :: "date option"
  stat_num_columns :: nat
  stat_num_records :: nat
  stat_columns :: "string list"

text \<open>Lines 129 to 146, the body of the loop over the files.\<close>

definition note_file ::
  "library \<Rightarrow> validator \<times> file_stat list \<Rightarrow> string \<times> frame \<Rightarrow> py_error + validator \<times> file_stat list" where
  "note_file L state file =
     (let path = fst file; base_filename = basename path in
      case extract_month_year_from_filename path of
        Inl e \<Rightarrow> Inl e
      | Inr month_year \<Rightarrow>
          (let df = set_column (snd file) ''Month/Year''
                      (scalar_column (snd file) Object (month_year_cell month_year))
           in case for_each (note_column L base_filename df) (column_names df) (fst state) of
                Inl e \<Rightarrow> Inl e
              | Inr V \<Rightarrow>
                  Inr (V, snd state @
                         [\<lparr>stat_filename = basename path, stat_month_year = month_year,
                           stat_num_columns = length (column_names df),
                           stat_num_records = nrows df,
                           stat_columns = column_names df\<rparr>])))"

text \<open>
  Line 148: a \<^verbatim>\<open>DataFrame\<close> made of no record has no column, and sorting it by
  \<^verbatim>\<open>month_year\<close> raises \<^verbatim>\<open>KeyError\<close>.
\<close>

definition sort_stats :: "library \<Rightarrow> file_stat list \<Rightarrow> py_error + file_stat list" where
  "sort_stats L file_stats =
     (if file_stats = [] then Inl KeyError
      else Inr (take_rows file_stats (nargsort (argsort L) (map stat_month_year file_stats))))"

text \<open>Lines 125 to 148: the validator after the loop, and the sorted statistics.\<close>

definition get_file_stats ::
  "library \<Rightarrow> (string \<times> frame) list \<Rightarrow> validator \<Rightarrow> py_error + validator \<times> file_stat list" where
  "get_file_stats L files V =
     (case for_each (note_file L) files (V, []) of
        Inl e \<Rightarrow> Inl e
      | Inr state \<Rightarrow>
          (case sort_stats L (snd state) of
             Inl e \<Rightarrow> Inl e
           | Inr stats_df \<Rightarrow> Inr (fst state, stats_df)))"

text \<open>
  Lines 150 to 165. \<open>discrepancy_entries\<close> is the double loop: for every column with
  more than one type, one entry per type with the files of that type;
  \<open>get_discrepancies\<close> turns each entry into the row of the sheet.
\<close>

record discrepancy =
  Column :: string
  Data_Type :: string
  Files :: string
  Top_5_Repeated_Values :: string

definition discrepancy_entries ::
  "(string \<times> (string \<times> string list) list) list \<Rightarrow> (string \<times> string \<times> string list) list" where
  "discrepancy_entries cols =
     concat (map (\<lambda>ct. if length (snd ct) > 1
                        then map (\<lambda>tf. (fst ct, fst tf, snd tf)) (snd ct)
                        else []) cols)"

definition discrepancy_row :: "validator \<Rightarrow> string \<times> string \<times> string list \<Rightarrow> discrepancy" where
  "discrepancy_row V e =
     (let col = fst e; data_type = fst (snd e); files = snd (snd e) in
      \<lparr>Column = col, Data_Type = data_type, Files = join '', '' files,
       Top_5_Repeated_Values =
         join '', '' (map (\<lambda>file. file @ '': ['' @
                             lookup_default [] (lookup_default [] (top_values V) col) file @ '']'')
                        files)\<rparr>)"

definition get_discrepancies :: "validator \<Rightarrow> discrepancy list" where
  "get_discrepancies V = map (discrepancy_row V) (discrepancy_entries (all_columns V))"

text \<open>
  Lines 167 to 173: the two sheets that are written. An exception of \<open>get_file_stats\<close>
  comes before the writer is opened, so no file is written.
\<close>

definition generate_report ::
  "library \<Rightarrow> (string \<times> frame) list \<Rightarrow> py_error + file_stat list \<times> discrepancy list" where
  "generate_report L files =
     (case get_file_stats L files \<lparr>all_columns = [], top_values = []\<rparr> of
        Inl e \<Rightarrow> Inl e
      | Inr r \<Rightarrow> Inr (snd r, get_discrepancies (fst r)))"

section \<open>Notions the properties are stated with\<close>

text \<open>
  A token that reads as a month: one of the twelve abbreviations, alone or followed by
  \<^verbatim>\<open>24\<close>.
\<close>

definition month_token :: "string \<Rightarrow> bool" where
  "month_token t = (t \<in> set month_abbrs \<or> (\<exists>a \<in> set month_abbrs. t = a @ ''24''))"

text \<open>The names line 74 to 75 give the two columns made of a composite column.\<close>

definition lon_name :: "string \<Rightarrow> string" where
  "lon_name col = replace col ''LonLat'' [] @ ''_Longitude''"

definition lat_name :: "string \<Rightarrow> string" where
  "lat_name col = replace col ''LonLat'' [] @ ''_Latitude''"

text \<open>The columns the program names that are not composite.\<close>

definition plain_columns :: "string list" where
  "plain_columns = date_columns @ object_columns @
     [''recipientsNumbers'', ''taskDetails'', ''Filename'', ''Month/Year'', ''TotalAmount'']"

text \<open>What lines 80 to 82 make of one cell of \<^verbatim>\<open>recipientsNumbers\<close>.\<close>

definition cleaned_number :: "library \<Rightarrow> cell \<Rightarrow> cell" where
  "cleaned_number L v = replace_value (Text ''nan'') Null (str_lstrip [CHR 0x60] (astype_str L v))"

subsection \<open>A library and a table to run the program on\<close>

text \<open>
  An \<open>argsort\<close> that is stable: insertion sort of the positions by their keys. It is one
  of the functions numpy's promise allows, and the one the examples run with.
\<close>

definition date_triple :: "date \<Rightarrow> nat \<times> nat \<times> nat" where
  "date_triple d = (year d, month d, day d)"

definition stable_argsort :: "date list \<Rightarrow> nat list" where
  "stable_argsort ks = sort_key (\<lambda>i. date_triple (ks ! i)) [0..<length ks]"

definition example_library :: library where
  "example_library =
     \<lparr>to_datetime = (\<lambda>x. Some (x\<lparr>dtype := Datetime64\<rparr>)),
      argsort = stable_argsort,
      py_str = (\<lambda>x. ''?''),
      value_counts = (\<lambda>xs. map (\<lambda>v. (v, count_list xs v)) (rev (remdups (rev xs))))\<rparr>"

definition example_frame :: frame where
  "example_frame =
     \<lparr>nrows = 2,
      columns =
        [(''destinationLonLat'', \<lparr>dtype = Object, cells = [Text (CHR 0x60 # ''12.5,45.1''), Null]\<rparr>),
         (''completionLonLat'', \<lparr>dtype = Object, cells = [Text ''1,2'', Text ''3'']\<rparr>),
         (''startLonLat'', \<lparr>dtype = Object, cells = [Text ''1,2'', Text ''3,4'']\<rparr>),
         (''departureLonLat'', \<lparr>dtype = Object, cells = [Text ''1,2'', Text ''3,4'']\<rparr>),
         (''arrivalLonLat'', \<lparr>dtype = Object, cells = [Text ''1,2'', Text ''3,4'']\<rparr>),
         (''recipientsNumbers'', \<lparr>dtype = Object, cells = [Text (CHR 0x60 # ''+1415''), Null]\<rparr>),
         (''taskDetails'', \<lparr>dtype = Object, cells = [Text ''Total: $1,234.56'', Null]\<rparr>)]\<rparr>"

definition example_transformed :: frame where
  "example_transformed =
     \<lparr>nrows = 2,
      columns =
        [(''recipientsNumbers'', \<lparr>dtype = Object, cells = [Text ''+1415'', Null]\<rparr>),
         (''taskDetails'', \<lparr>dtype = Object, cells = [Text ''Total: $1,234.56'', Null]\<rparr>),
         (''destination_Longitude'', \<lparr>dtype = Float64, cells = [Num (25 / 2), Null]\<rparr>),
         (''destination_Latitude'', \<lparr>dtype = Float64, cells = [Num (451 / 10), Null]\<rparr>),
         (''completion_Longitude'', \<lparr>dtype = Float64, cells = [Num 1, Num 3]\<rparr>),
         (''completion_Latitude'', \<lparr>dtype = Float64, cells = [Num 2, Null]\<rparr>),
         (''start_Longitude'', \<lparr>dtype = Float64, cells = [Num 1, Num 3]\<rparr>),
         (''start_Latitude'', \<lparr>dtype = Float64, cells = [Num 2, Num 4]\<rparr>),
         (''departure_Longitude'', \<lparr>dtype = Float64, cells = [Num 1, Num 3]\<rparr>),
         (''departure_Latitude'', \<lparr>dtype = Float64, cells = [Num 2, Num 4]\<rparr>),
         (''arrival_Longitude'', \<lparr>dtype = Float64, cells = [Num 1, Num 3]\<rparr>),
         (''arrival_Latitude'', \<lparr>dtype = Float64, cells = [Num 2, Num 4]\<rparr>)]\<rparr>"

text \<open>A table whose only column is one composite column, and one with the numbers only.\<close>

definition lone_geo_frame :: frame where
  "lone_geo_frame =
     \<lparr>nrows = 1,
      columns = [(''destinationLonLat'', \<lparr>dtype = Object, cells = [Text (CHR 0x60 # ''12.5,45.1'')]\<rparr>)]\<rparr>"

definition lone_recipients_frame :: frame where
  "lone_recipients_frame =
     \<lparr>nrows = 2,
      columns = [(''recipientsNumbers'', \<lparr>dtype = Object, cells = [Text (CHR 0x60 # ''+1415''), Null]\<rparr>)]\<rparr>"

subsection \<open>Rows and their order\<close>








section \<open>Properties of the string functions\<close>

lemma split_not_Nil: "split sep s \<noteq> []"
  by (induction s) (auto split: list.splits)

lemma split_no_sep: "sep \<notin> set t \<Longrightarrow> split sep t = [t]"
  by (induction t) auto

lemma split_append_sep: "split sep (x @ sep # t) = split sep x @ split sep t"
proof (induction x)
  case Nil
  show ?case by simp
next
  case (Cons c x)
  obtain w ws where "split sep x = w # ws"
    using split_not_Nil [of sep x] by (cases "split sep x") auto
  with Cons show ?case by simp
qed

lemma hd_split: "hd (split sep s) = takeWhile (\<lambda>c. c \<noteq> sep) s"
  by (induction s) (auto split: list.splits simp: split_not_Nil)

lemma filename_token_total:
  "filename_token f = Inr (lower (takeWhile (\<lambda>c. c \<noteq> CHR ''.'') (last (split CHR ''_'' f))))"
proof -
  obtain w ws where "split CHR ''.'' (last (split CHR ''_'' f)) = w # ws"
    using split_not_Nil by (metis list.exhaust)
  moreover from this have "w = takeWhile (\<lambda>c. c \<noteq> CHR ''.'') (last (split CHR ''_'' f))"
    using hd_split [of "CHR ''.''" "last (split CHR ''_'' f)"] by simp
  ultimately show ?thesis
    by (simp add: filename_token_def index_last_def index_first_def split_not_Nil)
qed

lemma filename_token_of_name:
  assumes "CHR ''_'' \<notin> set m" "CHR ''.'' \<notin> set m"
  shows "filename_token (x @ ''_'' @ m @ ''.csv'') = Inr (lower m)"
proof -
  have "last (split CHR ''_'' (x @ CHR ''_'' # (m @ ''.csv''))) = m @ ''.csv''"
    using assms by (simp add: split_append_sep split_no_sep)
  moreover have "takeWhile (\<lambda>c. c \<noteq> CHR ''.'') (m @ ''.csv'') = m"
    using assms by (simp add: takeWhile_append)
  ultimately show ?thesis by (simp add: filename_token_total)
qed

lemma replace_scan_Nil: "replace_scan old new [] = []"
  by (simp add: replace_scan.simps)

lemma replace_scan_prefix:
  "old \<noteq> [] \<Longrightarrow> prefix old s \<Longrightarrow>
   replace_scan old new s = new @ replace_scan old new (drop (length old) s)"
  by (subst replace_scan.simps) auto

lemma replace_scan_step:
  "old \<noteq> [] \<Longrightarrow> \<not> prefix old (c # cs) \<Longrightarrow>
   replace_scan old new (c # cs) = c # replace_scan old new cs"
  by (subst replace_scan.simps) auto

lemma replace_scan_24_append:
  "replace_scan ''24'' ''/2024'' (a @ ''24'') = replace_scan ''24'' ''/2024'' a @ ''/2024''"
proof (induction a rule: length_induct)
  case (1 a)
  show ?case
  proof (cases a)
    case Nil
    then show ?thesis by (simp add: replace_scan_prefix replace_scan_Nil)
  next
    case (Cons c cs)
    show ?thesis
    proof (cases "prefix ''24'' a")
      case True
      then obtain r where a: "a = ''24'' @ r" by (auto simp: prefix_def)
      then have "length r < length a" by simp
      with 1 have "replace_scan ''24'' ''/2024'' (r @ ''24'') = replace_scan ''24'' ''/2024'' r @ ''/2024''"
        by blast
      with a show ?thesis by (simp add: replace_scan_prefix)
    next
      case False
      have l: "length cs < length a" using Cons by simp
      have np: "\<not> prefix ''24'' ((c # cs) @ ''24'')"
        using False Cons by (cases cs) auto
      from 1 l have "replace_scan ''24'' ''/2024'' (cs @ ''24'') = replace_scan ''24'' ''/2024'' cs @ ''/2024''"
        by blast
      with False np Cons show ?thesis by (simp add: replace_scan_step)
    qed
  qed
qed

lemma replace_scan_24_fix:
  "CHR ''/'' \<notin> set (replace_scan ''24'' ''/2024'' a) \<Longrightarrow> replace_scan ''24'' ''/2024'' a = a"
proof (induction a rule: length_induct)
  case (1 a)
  show ?case
  proof (cases a)
    case Nil
    then show ?thesis by (simp add: replace_scan_Nil)
  next
    case (Cons c cs)
    show ?thesis
    proof (cases "prefix ''24'' a")
      case True
      with 1(2) Cons show ?thesis by (simp add: replace_scan_prefix)
    next
      case False
      with 1 Cons show ?thesis by (simp add: replace_scan_step)
    qed
  qed
qed

lemma to_lower_id: "\<not> is_upper c \<Longrightarrow> to_lower c = c"
  by (simp add: to_lower_def is_upper_def)

lemma to_lower_is_lower: "is_upper c \<Longrightarrow> is_lower (to_lower c)"
  by (auto simp: is_upper_def is_lower_def to_lower_def)

lemma to_lower_nonletter:
  assumes "\<not> is_lower x" "\<not> is_upper x"
  shows "(to_lower c = x) = (c = x)"
proof (cases "is_upper c")
  case True
  then have "is_lower (to_lower c)" by (rule to_lower_is_lower)
  with assms True show ?thesis by auto
next
  case False
  then show ?thesis by (simp add: to_lower_id)
qed

lemma lower_mem_nonletter:
  assumes "\<not> is_lower x" "\<not> is_upper x"
  shows "(x \<in> set (lower s)) = (x \<in> set s)"
proof -
  have "(x \<in> to_lower ` set s) = (x \<in> set s)"
    using to_lower_nonletter [OF assms] by (metis (full_types) image_iff)
  then show ?thesis by (simp add: lower_def)
qed

lemma month_number_Some:
  "month_number m = Some k \<Longrightarrow> lower m \<in> set month_abbrs"
  by (auto simp: month_number_def month_abbrs_def split: if_splits)

lemma month_abbr_length: "a \<in> set month_abbrs \<Longrightarrow> length a = 3"
  by (auto simp: month_abbrs_def)

lemma month_abbr_no_slash: "a \<in> set month_abbrs \<Longrightarrow> CHR ''/'' \<notin> set a"
  by (auto simp: month_abbrs_def)

lemma month_abbr_lower: "a \<in> set month_abbrs \<Longrightarrow> lower a = a"
  by (auto simp: month_abbrs_def lower_def to_lower_def)

lemma month_abbr_not_24: "a \<in> set month_abbrs \<Longrightarrow> \<not> suffix ''24'' a"
  by (auto simp: month_abbrs_def suffix_to_prefix)

lemma month_abbr_not_jly: "a \<in> set month_abbrs \<Longrightarrow> \<not> prefix ''jly'' a"
  by (auto simp: month_abbrs_def)

lemma month_abbr_number: "a \<in> set month_abbrs \<Longrightarrow> month_number a \<noteq> None"
  by (simp add: month_number_def month_abbr_lower) (auto simp: month_abbrs_def)

lemma strptime_b_Y_Inr:
  assumes "strptime_b_Y s = Inr d"
  shows "length s = 8 \<and> lower (take 3 s) \<in> set month_abbrs \<and> s ! 3 = CHR ''/''
     \<and> month_number (take 3 s) = Some (month d) \<and> year d = nat_of_digits (drop 4 s) \<and> day d = 1"
proof (cases "month_number (take 3 s)")
  case None
  with assms show ?thesis by (simp add: strptime_b_Y_def)
next
  case (Some m)
  let ?c = "length s = 8 \<and> s ! 3 = CHR ''/'' \<and> list_all is_digit (drop 4 s)
              \<and> 0 < nat_of_digits (drop 4 s)"
  have c: ?c
  proof (rule ccontr)
    assume "\<not> ?c"
    then have "strptime_b_Y s = Inl ValueError"
      unfolding strptime_b_Y_def Some by simp
    with assms show False by simp
  qed
  then have "strptime_b_Y s = Inr \<lparr>year = nat_of_digits (drop 4 s), month = m, day = 1\<rparr>"
    unfolding strptime_b_Y_def Some by simp
  with assms have d: "d = \<lparr>year = nat_of_digits (drop 4 s), month = m, day = 1\<rparr>" by simp
  from Some have "lower (take 3 s) \<in> set month_abbrs" by (rule month_number_Some)
  with c d Some show ?thesis by simp
qed

lemma strptime_b_Y_year:
  assumes "month_number a = Some k" "length a = 3" "y \<in> {''2023'', ''2024''}"
  shows "strptime_b_Y (a @ CHR ''/'' # y) = Inr \<lparr>year = nat_of_digits y, month = k, day = 1\<rparr>"
proof -
  have "take 3 (a @ CHR ''/'' # y) = a" "(a @ CHR ''/'' # y) ! 3 = CHR ''/''"
    "drop 4 (a @ CHR ''/'' # y) = y" "length (a @ CHR ''/'' # y) = 8"
    using assms by (auto simp: nth_append)
  moreover have "list_all is_digit y" "0 < nat_of_digits y"
    using assms(3) by (auto simp: is_digit_def nat_of_digits_def digit_val_def)
  ultimately show ?thesis
    unfolding strptime_b_Y_def using assms(1) by simp
qed

lemma nat_of_digits_years: "nat_of_digits ''2023'' = 2023" "nat_of_digits ''2024'' = 2024"
  by (simp_all add: nat_of_digits_def digit_val_def)

lemma strptime_b_Y_2023:
  assumes "a \<in> set month_abbrs"
  shows "strptime_b_Y (a @ ''/2023'') = Inr \<lparr>year = 2023, month = the (month_number a), day = 1\<rparr>"
proof -
  from assms obtain k where "month_number a = Some k"
    using month_abbr_number by blast
  then show ?thesis
    using strptime_b_Y_year [of a k "''2023''"] assms
    by (simp add: month_abbr_length nat_of_digits_years)
qed

lemma strptime_b_Y_2024:
  assumes "a \<in> set month_abbrs"
  shows "strptime_b_Y (a @ ''/2024'') = Inr \<lparr>year = 2024, month = the (month_number a), day = 1\<rparr>"
proof -
  from assms obtain k where "month_number a = Some k"
    using month_abbr_number by blast
  then show ?thesis
    using strptime_b_Y_year [of a k "''2024''"] assms
    by (simp add: month_abbr_length nat_of_digits_years)
qed

lemma with_year_plain:
  "a \<in> set month_abbrs \<Longrightarrow> with_year a = a @ ''/2023''"
  by (simp add: with_year_def endswith_def month_abbr_not_24)

lemma replace_scan_abbr:
  "a \<in> set month_abbrs \<Longrightarrow> replace_scan ''24'' ''/2024'' a = a"
  by (auto simp: month_abbrs_def replace_scan_step replace_scan_Nil)

lemma with_year_24:
  "a \<in> set month_abbrs \<Longrightarrow> with_year (a @ ''24'') = a @ ''/2024''"
  by (simp add: with_year_def endswith_def replace_def replace_scan_24_append replace_scan_abbr
      suffix_def)

lemma to_lower_not_upper: "\<not> is_upper (to_lower c)"
proof (cases "is_upper c")
  case True
  then show ?thesis by (auto simp: is_upper_def to_lower_def)
next
  case False
  then show ?thesis by (simp add: to_lower_id)
qed

lemma lower_idem: "lower (lower s) = lower s"
  by (simp add: lower_def to_lower_id to_lower_not_upper)

lemma lower_no_slash:
  "CHR ''/'' \<notin> set (lower s) \<Longrightarrow> CHR ''/'' \<notin> set s"
  by (simp add: lower_mem_nonletter is_lower_def is_upper_def)

lemma parse_with_year:
  assumes low: "lower t = t" and ok: "strptime_b_Y (with_year t) = Inr d"
  shows "month_token t"
proof (cases "endswith t ''24''")
  case False
  then have s: "with_year t = t @ ''/2023''" by (simp add: with_year_def)
  from strptime_b_Y_Inr [OF ok] have "length (t @ ''/2023'') = 8"
    and m: "lower (take 3 (t @ ''/2023'')) \<in> set month_abbrs"
    unfolding s by blast+
  then have "length t = 3" by simp
  with m have "lower t \<in> set month_abbrs" by simp
  then have "t \<in> set month_abbrs" using low by simp
  then show ?thesis by (simp add: month_token_def)
next
  case True
  then obtain a where t: "t = a @ ''24''" by (auto simp: endswith_def suffix_def)
  let ?r = "replace_scan ''24'' ''/2024'' a"
  have s: "with_year t = ?r @ ''/2024''"
    using True by (simp add: with_year_def replace_def t replace_scan_24_append)
  from strptime_b_Y_Inr [OF ok] have "length (?r @ ''/2024'') = 8"
    and m: "lower (take 3 (?r @ ''/2024'')) \<in> set month_abbrs"
    unfolding s by blast+
  then have len: "length ?r = 3" by simp
  from len m have lr: "lower ?r \<in> set month_abbrs" by simp
  then have "CHR ''/'' \<notin> set (lower ?r)" by (rule month_abbr_no_slash)
  then have "CHR ''/'' \<notin> set ?r" by (rule lower_no_slash)
  then have ra: "?r = a" by (rule replace_scan_24_fix)
  have "lower a = a"
    using low by (simp add: t lower_def)
  with ra lr have "a \<in> set month_abbrs" by simp
  then show ?thesis by (auto simp: month_token_def t)
qed

lemma month_token_parses:
  assumes "month_token t"
  shows "\<exists>d. strptime_b_Y (with_year t) = Inr d"
  using assms by (auto simp: month_token_def with_year_plain with_year_24 strptime_b_Y_2023 strptime_b_Y_2024)

section \<open>The date of a file name\<close>

lemma filename_token_lower:
  "filename_token f = Inr t \<Longrightarrow> lower t = t"
  using filename_token_total [of f] by (auto simp: lower_idem)

lemma extract_never_raises:
  "\<exists>r. extract_month_year_from_filename f = Inr r"
  by (simp add: extract_month_year_from_filename_def filename_token_total split: sum.splits)

lemma normalise_jly_parses:
  "startswith t ''jly'' \<Longrightarrow>
   strptime_b_Y (with_year (normalise_jly t)) = Inr \<lparr>year = 2023, month = 7, day = 1\<rparr>"
proof -
  assume "startswith t ''jly''"
  then have "normalise_jly t = ''jul''" by (simp add: normalise_jly_def)
  moreover have "''jul'' \<in> set month_abbrs" by (simp add: month_abbrs_def)
  moreover have "month_number ''jul'' = Some 7"
    by (simp add: month_number_def month_abbrs_def lower_def to_lower_def)
  ultimately show ?thesis
    using strptime_b_Y_2023 [of "''jul''"] by (simp add: with_year_plain)
qed

text \<open>
  For a name \<open>x_<m>.csv\<close> whose token \<open>m\<close> is a month abbreviation in any letter case,
  the date is the first day of that month in 2023; with \<^verbatim>\<open>24\<close> after the abbreviation it
  is in 2024.
\<close>

lemma extract_month_2023:
  assumes "lower m \<in> set month_abbrs"
  shows "extract_month_year_from_filename (x @ ''_'' @ m @ ''.csv'')
           = Inr (Some \<lparr>year = 2023, month = the (month_number m), day = 1\<rparr>)"
proof -
  have "CHR ''_'' \<notin> set (lower m)" "CHR ''.'' \<notin> set (lower m)"
    using assms by (auto simp: month_abbrs_def)
  then have "CHR ''_'' \<notin> set m" "CHR ''.'' \<notin> set m"
    by (simp_all add: lower_mem_nonletter is_lower_def is_upper_def)
  then have t: "filename_token (x @ ''_'' @ m @ ''.csv'') = Inr (lower m)"
    by (rule filename_token_of_name)
  have "normalise_jly (lower m) = lower m"
    using assms by (simp add: normalise_jly_def startswith_def month_abbr_not_jly)
  moreover have "month_number (lower m) = month_number m"
    by (simp add: month_number_def lower_idem)
  ultimately show ?thesis
    unfolding extract_month_year_from_filename_def t
    using assms by (simp add: with_year_plain strptime_b_Y_2023)
qed

lemma extract_month_2024:
  assumes "lower m \<in> set month_abbrs"
  shows "extract_month_year_from_filename (x @ ''_'' @ m @ ''24.csv'')
           = Inr (Some \<lparr>year = 2024, month = the (month_number m), day = 1\<rparr>)"
proof -
  have "CHR ''_'' \<notin> set (lower m)" "CHR ''.'' \<notin> set (lower m)"
    using assms by (auto simp: month_abbrs_def)
  then have "CHR ''_'' \<notin> set m" "CHR ''.'' \<notin> set m"
    by (simp_all add: lower_mem_nonletter is_lower_def is_upper_def)
  then have "filename_token (x @ ''_'' @ (m @ ''24'') @ ''.csv'') = Inr (lower (m @ ''24''))"
    by (intro filename_token_of_name) auto
  moreover have "lower (m @ ''24'') = lower m @ ''24''"
    by (simp add: lower_def to_lower_def)
  ultimately have t: "filename_token (x @ ''_'' @ m @ ''24.csv'') = Inr (lower m @ ''24'')"
    by simp
  have "\<not> prefix ''jly'' (lower m @ ''24'')"
    using assms by (auto simp: month_abbrs_def)
  then have "normalise_jly (lower m @ ''24'') = lower m @ ''24''"
    by (simp add: normalise_jly_def startswith_def)
  moreover have "month_number (lower m) = month_number m"
    by (simp add: month_number_def lower_idem)
  ultimately show ?thesis
    unfolding extract_month_year_from_filename_def t
    using assms by (simp add: with_year_24 strptime_b_Y_2024)
qed

text \<open>
  C1. The claim: for every valid name \<open>X_<mon>.csv\<close> the date has the month of the token
  (\<^verbatim>\<open>jly\<close> read as \<^verbatim>\<open>jul\<close>) and the year 2024 when the token ends in \<^verbatim>\<open>24\<close>, 2023
  otherwise. For the July 2024 file \<^verbatim>\<open>data/tasks_jly24.csv\<close> the token \<^verbatim>\<open>jly24\<close> ends in
  \<^verbatim>\<open>24\<close>, and the function returns 1 July 2023: line 20 replaces the whole token by
  \<^verbatim>\<open>jul\<close>, so the test of line 23 no longer sees the \<^verbatim>\<open>24\<close>. Every other month keeps its
  year (\<open>extract_month_2023\<close>, \<open>extract_month_2024\<close>).
\<close>

theorem jly24_is_dated_2023:
  "extract_month_year_from_filename ''data/tasks_jly24.csv''
     = Inr (Some \<lparr>year = 2023, month = 7, day = 1\<rparr>)"
proof -
  have "filename_token (''data/tasks'' @ ''_'' @ ''jly24'' @ ''.csv'') = Inr (lower ''jly24'')"
    by (rule filename_token_of_name) simp_all
  moreover have "lower ''jly24'' = ''jly24''"
    by (simp add: lower_def to_lower_def)
  ultimately have "filename_token ''data/tasks_jly24.csv'' = Inr ''jly24''" by simp
  moreover have "startswith ''jly24'' ''jly''" by (simp add: startswith_def)
  ultimately show ?thesis
    by (simp add: extract_month_year_from_filename_def normalise_jly_parses)
qed

section \<open>Properties of tables\<close>

lemma has_column_map_of: "has_column df c = (map_of (columns df) c \<noteq> None)"
  by (simp add: has_column_def column_names_def map_of_eq_None_iff)

lemma get_column_KeyError: "(get_column df c = Inl e) = (\<not> has_column df c \<and> e = KeyError)"
  by (auto simp: get_column_def has_column_map_of split: option.splits)

lemma get_column_Inr: "get_column df c = Inr x \<Longrightarrow> has_column df c"
  by (auto simp: get_column_def has_column_map_of split: option.splits)

lemma has_column_get: "has_column df c \<Longrightarrow> \<exists>x. get_column df c = Inr x"
  by (auto simp: get_column_def has_column_map_of split: option.splits)

lemma get_column_set_same [simp]: "get_column (set_column df c x) c = Inr x"
  by (simp add: get_column_def set_column_def update_conv')

lemma get_column_set_other [simp]:
  "c \<noteq> c' \<Longrightarrow> get_column (set_column df c' x) c = get_column df c"
  by (simp add: get_column_def set_column_def update_conv')

lemma has_column_set [simp]:
  "has_column (set_column df c' x) c = (c = c' \<or> has_column df c)"
  by (auto simp: has_column_map_of set_column_def update_conv')

lemma nrows_set_column [simp]: "nrows (set_column df c x) = nrows df"
  by (simp add: set_column_def)

lemma drop_columns_Inr:
  assumes "drop_columns df labels = Inr df'"
  shows "nrows df' = nrows df"
    and "has_column df' c = (has_column df c \<and> c \<notin> set labels)"
    and "c \<notin> set labels \<Longrightarrow> get_column df' c = get_column df c"
proof -
  from assms have d: "df' = df\<lparr>columns := filter (\<lambda>nc. fst nc \<notin> set labels) (columns df)\<rparr>"
    by (auto simp: drop_columns_def split: if_splits)
  have m: "map_of (columns df') = map_of (columns df) |` {n. n \<notin> set labels}"
    unfolding d using map_of_filter [of "\<lambda>n. n \<notin> set labels" "columns df"] by simp
  show "nrows df' = nrows df" by (simp add: d)
  show "has_column df' c = (has_column df c \<and> c \<notin> set labels)"
    by (auto simp: has_column_map_of m restrict_map_def)
  show "c \<notin> set labels \<Longrightarrow> get_column df' c = get_column df c"
    by (simp add: get_column_def m restrict_map_def)
qed

lemma drop_columns_KeyError:
  "(drop_columns df labels = Inl e) = (\<not> list_all (has_column df) labels \<and> e = KeyError)"
  by (auto simp: drop_columns_def)

lemma for_each_append:
  "for_each f (xs @ ys) s = (case for_each f xs s of Inl e \<Rightarrow> Inl e | Inr s1 \<Rightarrow> for_each f ys s1)"
  by (induction xs arbitrary: s) (auto split: sum.splits)

lemma for_each_invariant:
  assumes "for_each f xs s = Inr s'" and "Q s"
    and step: "\<And>x a b. x \<in> set xs \<Longrightarrow> f a x = Inr b \<Longrightarrow> Q a \<Longrightarrow> Q b"
  shows "Q s'"
  using assms
proof (induction xs arbitrary: s)
  case Nil
  then show ?case by simp
next
  case (Cons x xs)
  from Cons.prems(1) obtain s1 where s1: "f s x = Inr s1" and r: "for_each f xs s1 = Inr s'"
    by (auto split: sum.splits)
  have "Q s1" using Cons.prems(3) [OF _ s1 Cons.prems(2)] by simp
  show ?case
    by (rule Cons.IH [OF r \<open>Q s1\<close>]) (rule Cons.prems(3), auto)
qed

section \<open>The steps of \<open>transform_columns\<close>\<close>

lemma convert_date_Inr:
  assumes "convert_date L df col = Inr df'"
  shows "nrows df' = nrows df" and "has_column df' c = has_column df c"
    and "c \<noteq> col \<Longrightarrow> get_column df' c = get_column df c"
  using assms
  by (auto simp: convert_date_def split: if_splits sum.splits option.splits)

lemma convert_date_Inl: "convert_date L df col = Inl e \<Longrightarrow> e = ToDatetimeError"
  by (auto simp: convert_date_def get_column_KeyError split: if_splits sum.splits option.splits)

lemma convert_date_absent: "\<not> has_column df col \<Longrightarrow> convert_date L df col = Inr df"
  by (simp add: convert_date_def)

lemma convert_object_Inr:
  assumes "convert_object df col = Inr df'"
  shows "nrows df' = nrows df" and "has_column df' c = has_column df c"
    and "c \<noteq> col \<Longrightarrow> get_column df' c = get_column df c"
  using assms
  by (auto simp: convert_object_def split: if_splits sum.splits)

lemma convert_object_total: "\<exists>df'. convert_object df col = Inr df'"
  by (auto simp: convert_object_def get_column_KeyError split: if_splits sum.splits)

lemma convert_object_absent: "\<not> has_column df col \<Longrightarrow> convert_object df col = Inr df"
  by (simp add: convert_object_def)

lemma split_lonlat_absent: "\<not> has_column df col \<Longrightarrow> split_lonlat df col = Inr df"
  by (simp add: split_lonlat_def)

lemma map_err_Inl: "map_err f xs = Inl e \<Longrightarrow> \<exists>x \<in> set xs. f x = Inl e"
  by (induction xs) (auto split: sum.splits)

lemma map_err_Inr:
  "map_err f xs = Inr ys \<Longrightarrow> length ys = length xs \<and> (\<forall>i < length xs. f (xs ! i) = Inr (ys ! i))"
proof (induction xs arbitrary: ys)
  case Nil
  then show ?case by simp
next
  case (Cons x xs)
  then obtain y ys' where y: "f x = Inr y" and r: "map_err f xs = Inr ys'" and ys: "ys = y # ys'"
    by (auto split: sum.splits)
  from Cons.IH [OF r] y ys show ?case by (auto simp: nth_Cons split: nat.splits)
qed

lemma map_err_total:
  assumes "\<And>x. x \<in> set xs \<Longrightarrow> \<exists>y. f x = Inr y"
  shows "\<exists>ys. map_err f xs = Inr ys"
proof (cases "map_err f xs")
  case (Inl e)
  then obtain x where "x \<in> set xs" "f x = Inl e" using map_err_Inl by fastforce
  with assms show ?thesis by fastforce
next
  case (Inr ys)
  then show ?thesis by blast
qed

lemma overflow_bound_power: "overflow_bound = 2 ^ 1024 - 2 ^ 970"
  by (simp add: overflow_bound_def)

lemma py_float_Inl: "py_float s = Inl e \<Longrightarrow> e = ValueError"
  by (simp add: py_float_def Let_def split: option.splits)

lemma float_part_Inl: "float_part j p = Inl e \<Longrightarrow> e = ValueError"
  by (auto simp: float_part_def split: option.splits if_splits sum.splits dest: py_float_Inl)

lemma split_lonlat_Inl:
  "split_lonlat df col = Inl e \<Longrightarrow> e = AttributeError \<or> e = ValueError"
  by (auto simp: split_lonlat_def Let_def str_accessor_def get_column_KeyError
      split: if_splits sum.splits dest!: map_err_Inl float_part_Inl)

lemma split_lonlat_Inr:
  assumes "split_lonlat df col = Inr df'"
  shows "nrows df' = nrows df"
    and "has_column df' c = (has_column df c \<or> (has_column df col \<and> (c = lon_name col \<or> c = lat_name col)))"
    and "c \<noteq> col \<Longrightarrow> c \<noteq> lon_name col \<Longrightarrow> c \<noteq> lat_name col \<Longrightarrow> get_column df' c = get_column df c"
  using assms
  by (auto simp: split_lonlat_def Let_def lon_name_def lat_name_def split: if_splits sum.splits)

lemma clean_recipients_absent:
  "\<not> has_column df ''recipientsNumbers'' \<Longrightarrow> clean_recipients L df = Inr df"
  by (simp add: clean_recipients_def)

lemma clean_recipients_present:
  assumes "get_column df ''recipientsNumbers'' = Inr x"
  shows "clean_recipients L df =
     Inr (set_column (set_column (set_column df ''recipientsNumbers''
            \<lparr>dtype = Object, cells = map (astype_str L) (cells x)\<rparr>) ''recipientsNumbers''
            \<lparr>dtype = Object, cells = map (str_lstrip [CHR 0x60]) (map (astype_str L) (cells x))\<rparr>)
            ''recipientsNumbers''
            \<lparr>dtype = Object,
             cells = map (replace_value (Text ''nan'') Null)
                       (map (str_lstrip [CHR 0x60]) (map (astype_str L) (cells x)))\<rparr>)"
  using assms get_column_Inr [OF assms]
  by (simp add: clean_recipients_def Let_def str_accessor_def)

lemma clean_recipients_total: "\<exists>df'. clean_recipients L df = Inr df'"
proof (cases "has_column df ''recipientsNumbers''")
  case True
  then obtain x where "get_column df ''recipientsNumbers'' = Inr x"
    using has_column_get by blast
  then show ?thesis by (simp add: clean_recipients_present)
next
  case False
  then show ?thesis by (simp add: clean_recipients_absent)
qed

lemma clean_recipients_Inr:
  assumes "clean_recipients L df = Inr df'"
  shows "nrows df' = nrows df" and "has_column df' c = has_column df c"
    and "c \<noteq> ''recipientsNumbers'' \<Longrightarrow> get_column df' c = get_column df c"
proof -
  have "df' = df \<or> (has_column df ''recipientsNumbers'' \<and>
          (\<exists>a b d. df' = set_column (set_column (set_column df ''recipientsNumbers'' a)
                            ''recipientsNumbers'' b) ''recipientsNumbers'' d))"
  proof (cases "has_column df ''recipientsNumbers''")
    case True
    then obtain x where x: "get_column df ''recipientsNumbers'' = Inr x"
      using has_column_get by blast
    from assms True show ?thesis
      unfolding clean_recipients_present [OF x] by blast
  next
    case False
    with assms show ?thesis by (simp add: clean_recipients_absent)
  qed
  then show "nrows df' = nrows df" "has_column df' c = has_column df c"
    "c \<noteq> ''recipientsNumbers'' \<Longrightarrow> get_column df' c = get_column df c"
    by auto
qed

lemma lon_names:
  "map lon_name lonlat_columns =
     [''destination_Longitude'', ''completion_Longitude'', ''start_Longitude'',
      ''departure_Longitude'', ''arrival_Longitude'']"
  by (simp add: lonlat_columns_def lon_name_def replace_def replace_scan_step replace_scan_prefix
      replace_scan_Nil)

lemma lat_names:
  "map lat_name lonlat_columns =
     [''destination_Latitude'', ''completion_Latitude'', ''start_Latitude'',
      ''departure_Latitude'', ''arrival_Latitude'']"
  by (simp add: lonlat_columns_def lat_name_def replace_def replace_scan_step replace_scan_prefix
      replace_scan_Nil)

lemma lonlat_distinct: "distinct lonlat_columns"
  by (simp add: lonlat_columns_def)

lemma generated_names_distinct:
  "distinct (map lon_name lonlat_columns)" "distinct (map lat_name lonlat_columns)"
  by (simp_all only: lon_names lat_names) simp_all

lemma generated_names_disjoint:
  "set lonlat_columns \<inter> set (map lon_name lonlat_columns) = {}"
  "set lonlat_columns \<inter> set (map lat_name lonlat_columns) = {}"
  "set (map lon_name lonlat_columns) \<inter> set (map lat_name lonlat_columns) = {}"
  by (simp_all only: lon_names lat_names) (simp_all add: lonlat_columns_def)

lemma lonlat_names_apart:
  assumes "c \<in> set lonlat_columns" "c' \<in> set lonlat_columns"
  shows "lon_name c \<noteq> c'" "lat_name c \<noteq> c'" "lon_name c \<noteq> lat_name c'"
    "(lon_name c = lon_name c') = (c = c')" "(lat_name c = lat_name c') = (c = c')"
proof -
  show "lon_name c \<noteq> c'" "lat_name c \<noteq> c'" "lon_name c \<noteq> lat_name c'"
    using generated_names_disjoint assms by (simp_all only: set_map) blast+
  have "inj_on lon_name (set lonlat_columns)" "inj_on lat_name (set lonlat_columns)"
    using generated_names_distinct by (simp_all only: distinct_map)
  then show "(lon_name c = lon_name c') = (c = c')" "(lat_name c = lat_name c') = (c = c')"
    using assms by (auto dest: inj_onD)
qed

lemma plain_names_disjoint:
  "set plain_columns \<inter> set lonlat_columns = {}"
  "set plain_columns \<inter> set (map lon_name lonlat_columns) = {}"
  "set plain_columns \<inter> set (map lat_name lonlat_columns) = {}"
  by (simp_all only: lon_names lat_names)
    (simp_all add: plain_columns_def lonlat_columns_def date_columns_def object_columns_def)

lemma other_names_apart:
  assumes "c \<in> set plain_columns" "c' \<in> set lonlat_columns"
  shows "c \<noteq> c'" "c \<noteq> lon_name c'" "c \<noteq> lat_name c'"
  using plain_names_disjoint assms by (simp_all only: set_map) blast+

lemma plain_columns_mem:
  "set date_columns \<subseteq> set plain_columns" "set object_columns \<subseteq> set plain_columns"
  "''recipientsNumbers'' \<in> set plain_columns" "''taskDetails'' \<in> set plain_columns"
  "''Filename'' \<in> set plain_columns" "''Month/Year'' \<in> set plain_columns"
  "''TotalAmount'' \<in> set plain_columns"
  by (auto simp: plain_columns_def)

lemma recipients_not_date_object:
  "''recipientsNumbers'' \<notin> set date_columns" "''recipientsNumbers'' \<notin> set object_columns"
  "''taskDetails'' \<notin> set date_columns" "''taskDetails'' \<notin> set object_columns"
  by (simp_all add: date_columns_def object_columns_def)

lemma lonlat_not_date_object:
  assumes "c \<in> set lonlat_columns"
  shows "c \<notin> set date_columns" "c \<notin> set object_columns" "c \<noteq> ''recipientsNumbers''"
    "lon_name c \<notin> set date_columns" "lon_name c \<notin> set object_columns" "lon_name c \<noteq> ''recipientsNumbers''"
    "lat_name c \<notin> set date_columns" "lat_name c \<notin> set object_columns" "lat_name c \<noteq> ''recipientsNumbers''"
proof -
  have p: "d \<noteq> c \<and> d \<noteq> lon_name c \<and> d \<noteq> lat_name c" if "d \<in> set plain_columns" for d
    using other_names_apart [OF that assms] by simp
  have dc: "d \<in> set plain_columns" if "d \<in> set date_columns" for d
    using that plain_columns_mem(1) by blast
  have oc: "d \<in> set plain_columns" if "d \<in> set object_columns" for d
    using that plain_columns_mem(2) by blast
  show "c \<notin> set date_columns" "lon_name c \<notin> set date_columns" "lat_name c \<notin> set date_columns"
    using p dc by blast+
  show "c \<notin> set object_columns" "lon_name c \<notin> set object_columns" "lat_name c \<notin> set object_columns"
    using p oc by blast+
  show "c \<noteq> ''recipientsNumbers''" "lon_name c \<noteq> ''recipientsNumbers''"
    "lat_name c \<noteq> ''recipientsNumbers''"
    using p [OF plain_columns_mem(3)] by auto
qed

subsection \<open>The loops\<close>

lemma dates_phase:
  assumes "for_each (convert_date L) cs df = Inr df'"
  shows "nrows df' = nrows df" and "has_column df' c = has_column df c"
    and "c \<notin> set cs \<Longrightarrow> get_column df' c = get_column df c"
proof -
  show "nrows df' = nrows df"
    by (rule for_each_invariant [OF assms, where Q = "\<lambda>a. nrows a = nrows df"])
      (auto dest: convert_date_Inr(1))
  show "has_column df' c = has_column df c"
    by (rule for_each_invariant [OF assms, where Q = "\<lambda>a. has_column a c = has_column df c"])
      (auto dest: convert_date_Inr(2))
  show "c \<notin> set cs \<Longrightarrow> get_column df' c = get_column df c"
    by (rule for_each_invariant [OF assms, where Q = "\<lambda>a. get_column a c = get_column df c"])
      (simp, metis convert_date_Inr(3))
qed

lemma objects_phase:
  assumes "for_each convert_object cs df = Inr df'"
  shows "nrows df' = nrows df" and "has_column df' c = has_column df c"
    and "c \<notin> set cs \<Longrightarrow> get_column df' c = get_column df c"
proof -
  show "nrows df' = nrows df"
    by (rule for_each_invariant [OF assms, where Q = "\<lambda>a. nrows a = nrows df"])
      (auto dest: convert_object_Inr(1))
  show "has_column df' c = has_column df c"
    by (rule for_each_invariant [OF assms, where Q = "\<lambda>a. has_column a c = has_column df c"])
      (auto dest: convert_object_Inr(2))
  show "c \<notin> set cs \<Longrightarrow> get_column df' c = get_column df c"
    by (rule for_each_invariant [OF assms, where Q = "\<lambda>a. get_column a c = get_column df c"])
      (simp, metis convert_object_Inr(3))
qed

lemma lonlat_phase:
  assumes "for_each split_lonlat cs df = Inr df'"
  shows "nrows df' = nrows df" and "has_column df c \<Longrightarrow> has_column df' c"
    and "c \<notin> set cs \<Longrightarrow> c \<notin> lon_name ` set cs \<Longrightarrow> c \<notin> lat_name ` set cs
           \<Longrightarrow> get_column df' c = get_column df c"
proof -
  show "nrows df' = nrows df"
    by (rule for_each_invariant [OF assms, where Q = "\<lambda>a. nrows a = nrows df"])
      (auto dest: split_lonlat_Inr(1))
  show "has_column df c \<Longrightarrow> has_column df' c"
    by (rule for_each_invariant [OF assms, where Q = "\<lambda>a. has_column a c"])
      (auto simp: split_lonlat_Inr(2))
  show "c \<notin> set cs \<Longrightarrow> c \<notin> lon_name ` set cs \<Longrightarrow> c \<notin> lat_name ` set cs
           \<Longrightarrow> get_column df' c = get_column df c"
    by (rule for_each_invariant [OF assms, where Q = "\<lambda>a. get_column a c = get_column df c"])
      (simp, metis split_lonlat_Inr(3) image_eqI)
qed

lemma for_each_Inl:
  "for_each f xs s = Inl e \<Longrightarrow> \<exists>x \<in> set xs. \<exists>a. f a x = Inl e"
  by (induction xs arbitrary: s) (auto split: sum.splits)

lemma transform_columns_Inr:
  assumes "transform_columns L df = Inr df'"
  obtains df1 df2 df3 df4 where
    "for_each (convert_date L) date_columns df = Inr df1"
    "for_each convert_object object_columns df1 = Inr df2"
    "for_each split_lonlat lonlat_columns df2 = Inr df3"
    "clean_recipients L df3 = Inr df4"
    "drop_columns df4 lonlat_columns = Inr df'"
  using assms by (auto simp: transform_columns_def split: sum.splits)

lemma transform_columns_nrows:
  assumes "transform_columns L df = Inr df'"
  shows "nrows df' = nrows df"
proof -
  from assms obtain df1 df2 df3 df4 where
    "for_each (convert_date L) date_columns df = Inr df1"
    "for_each convert_object object_columns df1 = Inr df2"
    "for_each split_lonlat lonlat_columns df2 = Inr df3"
    "clean_recipients L df3 = Inr df4"
    "drop_columns df4 lonlat_columns = Inr df'"
    by (rule transform_columns_Inr)
  then show ?thesis
    by (simp add: dates_phase(1) objects_phase(1) lonlat_phase(1) clean_recipients_Inr(1)
        drop_columns_Inr(1))
qed

lemma transform_columns_keeps:
  assumes "transform_columns L df = Inr df'" and "has_column df c" and "c \<notin> set lonlat_columns"
  shows "has_column df' c"
proof -
  from assms(1) obtain df1 df2 df3 df4 where
    "for_each (convert_date L) date_columns df = Inr df1"
    "for_each convert_object object_columns df1 = Inr df2"
    "for_each split_lonlat lonlat_columns df2 = Inr df3"
    "clean_recipients L df3 = Inr df4"
    "drop_columns df4 lonlat_columns = Inr df'"
    by (rule transform_columns_Inr)
  then show ?thesis
    using assms(2,3)
    by (simp add: dates_phase(2) objects_phase(2) lonlat_phase(2) clean_recipients_Inr(2)
        drop_columns_Inr(2))
qed

lemma transform_columns_no_KeyError:
  assumes "list_all (has_column df) lonlat_columns"
  shows "transform_columns L df \<noteq> Inl KeyError"
proof
  assume k: "transform_columns L df = Inl KeyError"
  show False
  proof (cases "for_each (convert_date L) date_columns df")
    case (Inl e)
    with k have "e = KeyError" by (simp add: transform_columns_def)
    with Inl show False by (auto dest!: for_each_Inl convert_date_Inl)
  next
    case df1: (Inr df1)
    show False
    proof (cases "for_each convert_object object_columns df1")
      case (Inl e)
      then obtain x a where "convert_object a x = Inl e"
        using for_each_Inl [of convert_object object_columns df1 e] by blast
      then show False using convert_object_total [of a x] by auto
    next
      case df2: (Inr df2)
      show False
      proof (cases "for_each split_lonlat lonlat_columns df2")
        case (Inl e)
        with k df1 df2 have "e = KeyError" by (simp add: transform_columns_def)
        with Inl show False by (auto dest!: for_each_Inl split_lonlat_Inl)
      next
        case df3: (Inr df3)
        obtain df4 where df4: "clean_recipients L df3 = Inr df4"
          using clean_recipients_total by blast
        have "list_all (has_column df4) lonlat_columns"
          using assms
          by (simp add: list_all_iff clean_recipients_Inr(2) [OF df4] lonlat_phase(2) [OF df3]
              objects_phase(2) [OF df2] dates_phase(2) [OF df1])
        then have "drop_columns df4 lonlat_columns \<noteq> Inl KeyError"
          by (simp add: drop_columns_KeyError)
        with k df1 df2 df3 df4 show False by (simp add: transform_columns_def)
      qed
    qed
  qed
qed

section \<open>The example library\<close>

lemma date_le_triple: "date_le a b = (date_triple a \<le> date_triple b)"
  by (auto simp: date_le_def date_triple_def less_eq_prod_def)

lemma sorted_wrt_date_le:
  "sorted_wrt date_le ds = sorted (map date_triple ds)"
  by (induction ds) (auto simp: date_le_triple)

lemma stable_argsort_ok: "sorting_permutation stable_argsort"
proof -
  have "sorted (map date_triple (map (\<lambda>i. ks ! i) (stable_argsort ks)))" for ks
    using sorted_sort_key [of "\<lambda>i. date_triple (ks ! i)" "[0..<length ks]"]
    by (simp add: stable_argsort_def comp_def)
  then show ?thesis
    by (simp add: sorting_permutation_def sorted_wrt_date_le stable_argsort_def)
qed

lemma example_frame_transformed: "transform_columns example_library example_frame = Inr example_transformed"
  by code_simp

section \<open>\<open>recipientsNumbers\<close> and the composite columns\<close>

lemma lstrip_no_prefix: "\<not> prefix [c] (lstrip s [c])"
proof (cases "lstrip s [c]")
  case Nil
  then show ?thesis by simp
next
  case (Cons y ys)
  then have "y \<noteq> c"
    using hd_dropWhile [of "\<lambda>x. x \<in> set [c]" s] by (auto simp: lstrip_def)
  with Cons show ?thesis by simp
qed

lemma cleaned_number_cases:
  "cleaned_number L v = Null
     \<or> (\<exists>s. cleaned_number L v = Text s \<and> s \<noteq> ''nan'' \<and> \<not> prefix [CHR 0x60] s)"
  using lstrip_no_prefix [of "CHR 0x60"]
  by (cases v) (auto simp: cleaned_number_def replace_value_def str_lstrip_def astype_str_def)

lemma cleaned_number_Null: "cleaned_number L Null = Null"
  by (simp add: cleaned_number_def replace_value_def str_lstrip_def astype_str_def lstrip_def)

lemma transform_columns_recipients:
  assumes x: "get_column df ''recipientsNumbers'' = Inr x"
    and t: "transform_columns L df = Inr df'"
  shows "get_column df' ''recipientsNumbers''
           = Inr \<lparr>dtype = Object, cells = map (cleaned_number L) (cells x)\<rparr>"
proof -
  from t obtain df1 df2 df3 df4 where
    1: "for_each (convert_date L) date_columns df = Inr df1" and
    2: "for_each convert_object object_columns df1 = Inr df2" and
    3: "for_each split_lonlat lonlat_columns df2 = Inr df3" and
    4: "clean_recipients L df3 = Inr df4" and
    5: "drop_columns df4 lonlat_columns = Inr df'"
    by (rule transform_columns_Inr)
  have n: "''recipientsNumbers'' \<notin> set lonlat_columns"
    "''recipientsNumbers'' \<notin> lon_name ` set lonlat_columns"
    "''recipientsNumbers'' \<notin> lat_name ` set lonlat_columns"
    using other_names_apart [OF plain_columns_mem(3)] by blast+
  have "get_column df3 ''recipientsNumbers'' = Inr x"
    using x by (simp add: lonlat_phase(3) [OF 3 n] objects_phase(3) [OF 2]
        dates_phase(3) [OF 1] recipients_not_date_object)
  then have "get_column df4 ''recipientsNumbers''
               = Inr \<lparr>dtype = Object, cells = map (cleaned_number L) (cells x)\<rparr>"
    using 4 by (auto simp: clean_recipients_present cleaned_number_def)
  then show ?thesis
    by (simp add: drop_columns_Inr(3) [OF 5 n(1)])
qed

lemma lstrip_ticks:
  assumes "\<not> prefix [c] s"
  shows "lstrip (replicate n c @ s) [c] = s"
proof -
  have "dropWhile (\<lambda>x. x \<in> set [c]) s = s"
    using assms by (cases s) auto
  then show ?thesis
    by (simp add: lstrip_def dropWhile_append)
qed

lemma split_two:
  assumes "sep \<notin> set a" "sep \<notin> set b"
  shows "split sep (a @ sep # b) = [a, b]"
  using assms by (simp add: split_append_sep split_no_sep)

lemma split_lonlat_present:
  assumes x: "get_column df col = Inr x" and r: "split_lonlat df col = Inr df'"
  shows "\<exists>lons lats.
           map_err (float_part 0) (map (str_split CHR '','') (map (str_lstrip [CHR 0x60]) (cells x))) = Inr lons
         \<and> map_err (float_part 1) (map (str_split CHR '','') (map (str_lstrip [CHR 0x60]) (cells x))) = Inr lats
         \<and> df' = set_column
                    (set_column
                       (set_column df col \<lparr>dtype = Object, cells = map (str_lstrip [CHR 0x60]) (cells x)\<rparr>)
                       (lon_name col) \<lparr>dtype = Float64, cells = lons\<rparr>)
                    (lat_name col) \<lparr>dtype = Float64, cells = lats\<rparr>"
  using r get_column_Inr [OF x]
  by (auto simp: split_lonlat_def x Let_def lon_name_def lat_name_def str_accessor_def
      split: if_splits sum.splits)

lemma geo_value:
  assumes "CHR '','' \<notin> set lon" "CHR '','' \<notin> set lat" "\<not> prefix [CHR 0x60] lon"
    and "py_float lon = Inr a" "py_float lat = Inr b"
  shows "float_part 0 (str_split CHR '','' (str_lstrip [CHR 0x60]
            (Text (replicate n (CHR 0x60) @ lon @ CHR '','' # lat)))) = Inr (float_cell a)"
    and "float_part 1 (str_split CHR '','' (str_lstrip [CHR 0x60]
            (Text (replicate n (CHR 0x60) @ lon @ CHR '','' # lat)))) = Inr (float_cell b)"
proof -
  have "\<not> prefix [CHR 0x60] (lon @ CHR '','' # lat)"
    using assms(3) by (cases lon) auto
  then have "lstrip (replicate n (CHR 0x60) @ lon @ CHR '','' # lat) [CHR 0x60] = lon @ CHR '','' # lat"
    by (rule lstrip_ticks)
  then have s: "str_split CHR '','' (str_lstrip [CHR 0x60]
            (Text (replicate n (CHR 0x60) @ lon @ CHR '','' # lat))) = Some [lon, lat]"
    using assms(1,2) by (simp add: str_split_def str_lstrip_def split_two)
  show "float_part 0 (str_split CHR '','' (str_lstrip [CHR 0x60]
            (Text (replicate n (CHR 0x60) @ lon @ CHR '','' # lat)))) = Inr (float_cell a)"
    unfolding s using assms(4) by (simp add: float_part_def)
  show "float_part 1 (str_split CHR '','' (str_lstrip [CHR 0x60]
            (Text (replicate n (CHR 0x60) @ lon @ CHR '','' # lat)))) = Inr (float_cell b)"
    unfolding s using assms(5) by (simp add: float_part_def)
qed

lemma generated_notin:
  assumes c: "c \<in> set lonlat_columns" and sub: "set cs \<subseteq> set lonlat_columns" and n: "c \<notin> set cs"
  shows "lon_name c \<notin> set cs" "lon_name c \<notin> lon_name ` set cs" "lon_name c \<notin> lat_name ` set cs"
    "lat_name c \<notin> set cs" "lat_name c \<notin> lon_name ` set cs" "lat_name c \<notin> lat_name ` set cs"
    "c \<notin> lon_name ` set cs" "c \<notin> lat_name ` set cs"
proof -
  have in_l: "c' \<in> set lonlat_columns" if "c' \<in> set cs" for c'
    using that sub by blast
  show "lon_name c \<notin> set cs"
  proof
    assume "lon_name c \<in> set cs"
    then have "lon_name c \<in> set lonlat_columns" by (rule in_l)
    with lonlat_names_apart(1) [OF c this] show False by simp
  qed
  show "lat_name c \<notin> set cs"
  proof
    assume "lat_name c \<in> set cs"
    then have "lat_name c \<in> set lonlat_columns" by (rule in_l)
    with lonlat_names_apart(2) [OF c this] show False by simp
  qed
  show "lon_name c \<notin> lon_name ` set cs"
  proof
    assume "lon_name c \<in> lon_name ` set cs"
    then obtain c' where c': "c' \<in> set cs" "lon_name c = lon_name c'" by blast
    with lonlat_names_apart(4) [OF c in_l [OF c'(1)]] n show False by simp
  qed
  show "lat_name c \<notin> lat_name ` set cs"
  proof
    assume "lat_name c \<in> lat_name ` set cs"
    then obtain c' where c': "c' \<in> set cs" "lat_name c = lat_name c'" by blast
    with lonlat_names_apart(5) [OF c in_l [OF c'(1)]] n show False by simp
  qed
  show "lon_name c \<notin> lat_name ` set cs"
  proof
    assume "lon_name c \<in> lat_name ` set cs"
    then obtain c' where c': "c' \<in> set cs" "lon_name c = lat_name c'" by blast
    with lonlat_names_apart(3) [OF c in_l [OF c'(1)]] show False by simp
  qed
  show "lat_name c \<notin> lon_name ` set cs"
  proof
    assume "lat_name c \<in> lon_name ` set cs"
    then obtain c' where c': "c' \<in> set cs" "lat_name c = lon_name c'" by blast
    with lonlat_names_apart(3) [OF in_l [OF c'(1)] c] show False by simp
  qed
  show "c \<notin> lon_name ` set cs"
  proof
    assume "c \<in> lon_name ` set cs"
    then obtain c' where c': "c' \<in> set cs" "c = lon_name c'" by blast
    with lonlat_names_apart(1) [OF in_l [OF c'(1)] c] show False by simp
  qed
  show "c \<notin> lat_name ` set cs"
  proof
    assume "c \<in> lat_name ` set cs"
    then obtain c' where c': "c' \<in> set cs" "c = lat_name c'" by blast
    with lonlat_names_apart(2) [OF in_l [OF c'(1)] c] show False by simp
  qed
qed

lemma transform_columns_geo:
  assumes col: "col \<in> set lonlat_columns"
    and x: "get_column df col = Inr x"
    and t: "transform_columns L df = Inr df'"
  shows "\<exists>lons lats.
           map_err (float_part 0) (map (str_split CHR '','') (map (str_lstrip [CHR 0x60]) (cells x))) = Inr lons
         \<and> map_err (float_part 1) (map (str_split CHR '','') (map (str_lstrip [CHR 0x60]) (cells x))) = Inr lats
         \<and> get_column df' (lon_name col) = Inr \<lparr>dtype = Float64, cells = lons\<rparr>
         \<and> get_column df' (lat_name col) = Inr \<lparr>dtype = Float64, cells = lats\<rparr>
         \<and> \<not> has_column df' col"
proof -
  from t obtain df1 df2 df3 df4 where
    1: "for_each (convert_date L) date_columns df = Inr df1" and
    2: "for_each convert_object object_columns df1 = Inr df2" and
    3: "for_each split_lonlat lonlat_columns df2 = Inr df3" and
    4: "clean_recipients L df3 = Inr df4" and
    5: "drop_columns df4 lonlat_columns = Inr df'"
    by (rule transform_columns_Inr)
  have x2: "get_column df2 col = Inr x"
    using x by (simp add: objects_phase(3) [OF 2] dates_phase(3) [OF 1] lonlat_not_date_object [OF col])
  from col obtain pre post where l: "lonlat_columns = pre @ col # post"
    by (meson split_list)
  have d: "col \<notin> set pre" "col \<notin> set post"
    using lonlat_distinct by (auto simp: l)
  have sub: "set pre \<subseteq> set lonlat_columns" "set post \<subseteq> set lonlat_columns"
    by (auto simp: l)
  from 3 obtain dfa dfb where
    a: "for_each split_lonlat pre df2 = Inr dfa" and
    b: "split_lonlat dfa col = Inr dfb" and
    c: "for_each split_lonlat post dfb = Inr df3"
    by (auto simp: l for_each_append split: sum.splits)
  have "col \<notin> lon_name ` set pre" "col \<notin> lat_name ` set pre"
    by (rule generated_notin [OF col sub(1) d(1)])+
  then have xa: "get_column dfa col = Inr x"
    using x2 d by (simp add: lonlat_phase(3) [OF a])
  from split_lonlat_present [OF xa b] obtain lons lats where
    lons: "map_err (float_part 0) (map (str_split CHR '','') (map (str_lstrip [CHR 0x60]) (cells x))) = Inr lons" and
    lats: "map_err (float_part 1) (map (str_split CHR '','') (map (str_lstrip [CHR 0x60]) (cells x))) = Inr lats" and
    dfb: "dfb = set_column
                    (set_column
                       (set_column dfa col \<lparr>dtype = Object, cells = map (str_lstrip [CHR 0x60]) (cells x)\<rparr>)
                       (lon_name col) \<lparr>dtype = Float64, cells = lons\<rparr>)
                    (lat_name col) \<lparr>dtype = Float64, cells = lats\<rparr>"
    by blast
  have ne: "lon_name col \<noteq> lat_name col"
    using lonlat_names_apart(3) [OF col col] .
  have gb: "get_column dfb (lon_name col) = Inr \<lparr>dtype = Float64, cells = lons\<rparr>"
    "get_column dfb (lat_name col) = Inr \<lparr>dtype = Float64, cells = lats\<rparr>"
    using ne by (simp_all add: dfb)
  note p = generated_notin [OF col sub(2) d(2)]
  have g3: "get_column df3 (lon_name col) = Inr \<lparr>dtype = Float64, cells = lons\<rparr>"
    "get_column df3 (lat_name col) = Inr \<lparr>dtype = Float64, cells = lats\<rparr>"
    using gb by (simp_all add: lonlat_phase(3) [OF c p(1,2,3)] lonlat_phase(3) [OF c p(4,5,6)])
  have g4: "get_column df4 (lon_name col) = Inr \<lparr>dtype = Float64, cells = lons\<rparr>"
    "get_column df4 (lat_name col) = Inr \<lparr>dtype = Float64, cells = lats\<rparr>"
    using g3 lonlat_not_date_object [OF col] by (simp_all add: clean_recipients_Inr(3) [OF 4])
  have "lon_name col \<notin> set lonlat_columns" "lat_name col \<notin> set lonlat_columns"
    using lonlat_names_apart(1) [OF col] lonlat_names_apart(2) [OF col] by blast+
  then have "get_column df' (lon_name col) = Inr \<lparr>dtype = Float64, cells = lons\<rparr>"
    "get_column df' (lat_name col) = Inr \<lparr>dtype = Float64, cells = lats\<rparr>"
    using g4 by (simp_all add: drop_columns_Inr(3) [OF 5])
  moreover have "\<not> has_column df' col"
    using col by (simp add: drop_columns_Inr(2) [OF 5])
  ultimately show ?thesis using lons lats by blast
qed

section \<open>What \<open>transform_columns\<close> does to the named columns\<close>

lemma lon_name_replace:
  "col \<in> set lonlat_columns \<Longrightarrow> replace col ''LonLat'' ''_Longitude'' = lon_name col"
  by (auto simp: lonlat_columns_def lon_name_def replace_def replace_scan_step replace_scan_prefix
      replace_scan_Nil)

lemma lat_name_replace:
  "col \<in> set lonlat_columns \<Longrightarrow> replace col ''LonLat'' ''_Latitude'' = lat_name col"
  by (auto simp: lonlat_columns_def lat_name_def replace_def replace_scan_step replace_scan_prefix
      replace_scan_Nil)

text \<open>
  With all five composite columns in the table the function splits each of them: where
  a cell is a longitude and a latitude with a comma between them, with or without the
  backtick marks in front, the two new columns hold the two numbers in that row, and the
  composite column is gone.
\<close>

lemma complete_table_is_split:
  assumes "col \<in> set lonlat_columns"
    and "get_column df col = Inr x"
    and "transform_columns L df = Inr df'"
    and "i < length (cells x)"
    and "cells x ! i = Text (replicate n (CHR 0x60) @ lon @ CHR '','' # lat)"
    and "CHR '','' \<notin> set lon" and "CHR '','' \<notin> set lat" and "\<not> prefix [CHR 0x60] lon"
    and "py_float lon = Inr a" and "py_float lat = Inr b"
  shows "\<exists>lons lats.
           get_column df' (replace col ''LonLat'' ''_Longitude'') = Inr \<lparr>dtype = Float64, cells = lons\<rparr>
         \<and> get_column df' (replace col ''LonLat'' ''_Latitude'') = Inr \<lparr>dtype = Float64, cells = lats\<rparr>
         \<and> length lons = length (cells x) \<and> length lats = length (cells x)
         \<and> lons ! i = float_cell a \<and> lats ! i = float_cell b
         \<and> \<not> has_column df' col"
proof -
  let ?parts = "map (str_split CHR '','') (map (str_lstrip [CHR 0x60]) (cells x))"
  from transform_columns_geo [OF assms(1,2,3)] obtain lons lats where
    lons: "map_err (float_part 0) ?parts = Inr lons" and
    lats: "map_err (float_part 1) ?parts = Inr lats" and
    g: "get_column df' (lon_name col) = Inr \<lparr>dtype = Float64, cells = lons\<rparr>"
       "get_column df' (lat_name col) = Inr \<lparr>dtype = Float64, cells = lats\<rparr>"
       "\<not> has_column df' col"
    by blast
  have p: "?parts ! i = str_split CHR '','' (str_lstrip [CHR 0x60]
             (Text (replicate n (CHR 0x60) @ lon @ CHR '','' # lat)))"
    using assms(4,5) by simp
  have i: "i < length ?parts" using assms(4) by simp
  from map_err_Inr [OF lons] i have "length lons = length (cells x)"
    and "float_part 0 (?parts ! i) = Inr (lons ! i)" by auto
  moreover from map_err_Inr [OF lats] i have "length lats = length (cells x)"
    and "float_part 1 (?parts ! i) = Inr (lats ! i)" by auto
  ultimately have "length lons = length (cells x)" "length lats = length (cells x)"
    "lons ! i = float_cell a" "lats ! i = float_cell b"
    unfolding p using geo_value [OF assms(6,7,8,9,10), of n] by simp_all
  with g show ?thesis
    by (simp add: lon_name_replace [OF assms(1)] lat_name_replace [OF assms(1)])
qed

lemma lonlat_phase_back:
  assumes "for_each split_lonlat cs df = Inr df'"
    and "c \<notin> lon_name ` set cs" and "c \<notin> lat_name ` set cs"
  shows "has_column df' c = has_column df c"
  by (rule for_each_invariant [OF assms(1), where Q = "\<lambda>a. has_column a c = has_column df c"])
    (use assms(2,3) in \<open>auto simp: split_lonlat_Inr(2)\<close>)

text \<open>The function returns a table only when the table it is given has all five.\<close>

lemma transform_columns_needs_all_five:
  assumes "transform_columns L df = Inr df'"
  shows "list_all (has_column df) lonlat_columns"
proof -
  from assms obtain df1 df2 df3 df4 where
    1: "for_each (convert_date L) date_columns df = Inr df1" and
    2: "for_each convert_object object_columns df1 = Inr df2" and
    3: "for_each split_lonlat lonlat_columns df2 = Inr df3" and
    4: "clean_recipients L df3 = Inr df4" and
    5: "drop_columns df4 lonlat_columns = Inr df'"
    by (rule transform_columns_Inr)
  from 5 have a: "list_all (has_column df4) lonlat_columns"
    by (simp add: drop_columns_def split: if_splits)
  have "has_column df c" if c: "c \<in> set lonlat_columns" for c
  proof -
    from a c have "has_column df4 c" by (simp add: list_all_iff)
    then have "has_column df3 c" by (simp add: clean_recipients_Inr(2) [OF 4])
    moreover have "c \<notin> lon_name ` set lonlat_columns" "c \<notin> lat_name ` set lonlat_columns"
      using lonlat_names_apart(1,2) [OF _ c] by auto
    ultimately have "has_column df2 c" by (simp add: lonlat_phase_back [OF 3])
    then show ?thesis by (simp add: objects_phase(2) [OF 2] dates_phase(2) [OF 1])
  qed
  then show ?thesis by (simp add: list_all_iff)
qed

text \<open>
  C7. A table whose one column is \<^verbatim>\<open>destinationLonLat\<close>, holding the composite value
  \<^verbatim>\<open>12.5,45.1\<close> behind its backtick mark. The loop of lines 64 to 77 passes over the four
  composite columns the table does not have and splits the one it has; line 84 then
  drops all five by name, and the drop raises \<^verbatim>\<open>KeyError\<close> for the four that were never
  there. \<open>transform_columns\<close> returns no table, and the two numeric columns are lost
  with it.
\<close>

theorem lone_geo_column_raises:
  "has_column lone_geo_frame ''destinationLonLat''
   \<and> for_each split_lonlat lonlat_columns lone_geo_frame =
       Inr \<lparr>nrows = 1,
            columns =
              [(''destinationLonLat'', \<lparr>dtype = Object, cells = [Text ''12.5,45.1'']\<rparr>),
               (''destination_Longitude'', \<lparr>dtype = Float64, cells = [Num (25 / 2)]\<rparr>),
               (''destination_Latitude'', \<lparr>dtype = Float64, cells = [Num (451 / 10)]\<rparr>)]\<rparr>
   \<and> transform_columns L lone_geo_frame = Inl KeyError"
proof -
  have h: "has_column lone_geo_frame ''destinationLonLat''"
    by (simp add: has_column_def column_names_def lone_geo_frame_def)
  have s: "for_each split_lonlat lonlat_columns lone_geo_frame =
       Inr \<lparr>nrows = 1,
            columns =
              [(''destinationLonLat'', \<lparr>dtype = Object, cells = [Text ''12.5,45.1'']\<rparr>),
               (''destination_Longitude'', \<lparr>dtype = Float64, cells = [Num (25 / 2)]\<rparr>),
               (''destination_Latitude'', \<lparr>dtype = Float64, cells = [Num (451 / 10)]\<rparr>)]\<rparr>"
    by code_simp
  have d: "for_each (convert_date L) date_columns lone_geo_frame = Inr lone_geo_frame"
    by (simp add: date_columns_def convert_date_absent has_column_def column_names_def
        lone_geo_frame_def)
  have ob: "for_each convert_object object_columns lone_geo_frame = Inr lone_geo_frame"
    by (simp add: object_columns_def convert_object_absent has_column_def column_names_def
        lone_geo_frame_def)
  have t: "transform_columns L lone_geo_frame = Inl KeyError"
    by (simp add: transform_columns_def d ob s)
      (simp add: clean_recipients_def drop_columns_def has_column_def column_names_def
        lonlat_columns_def)
  from h s t show ?thesis by simp
qed

text \<open>
  C9. A table whose one column is \<^verbatim>\<open>recipientsNumbers\<close>. Lines 79 to 82 clean the column,
  and line 84 then drops the five composite columns by name: the table has none of them,
  the drop raises \<^verbatim>\<open>KeyError\<close>, and \<open>transform_columns\<close> returns no table, so no cleaned
  column either.
\<close>

theorem lone_recipients_column_raises:
  "has_column lone_recipients_frame ''recipientsNumbers''
   \<and> clean_recipients L lone_recipients_frame =
       Inr \<lparr>nrows = 2,
            columns = [(''recipientsNumbers'', \<lparr>dtype = Object, cells = [Text ''+1415'', Null]\<rparr>)]\<rparr>
   \<and> transform_columns L lone_recipients_frame = Inl KeyError"
proof -
  have h: "has_column lone_recipients_frame ''recipientsNumbers''"
    by (simp add: has_column_def column_names_def lone_recipients_frame_def)
  have d: "for_each (convert_date L) date_columns lone_recipients_frame = Inr lone_recipients_frame"
    by (simp add: date_columns_def convert_date_absent has_column_def column_names_def
        lone_recipients_frame_def)
  have ob: "for_each convert_object object_columns lone_recipients_frame = Inr lone_recipients_frame"
    by (simp add: object_columns_def convert_object_absent has_column_def column_names_def
        lone_recipients_frame_def)
  have s: "for_each split_lonlat lonlat_columns lone_recipients_frame = Inr lone_recipients_frame"
    by (simp add: lonlat_columns_def split_lonlat_absent has_column_def column_names_def
        lone_recipients_frame_def)
  have c: "clean_recipients L lone_recipients_frame =
       Inr \<lparr>nrows = 2,
            columns = [(''recipientsNumbers'', \<lparr>dtype = Object, cells = [Text ''+1415'', Null]\<rparr>)]\<rparr>"
    by (simp add: clean_recipients_def lone_recipients_frame_def has_column_def column_names_def
        get_column_def set_column_def str_accessor_def astype_str_def str_lstrip_def lstrip_def
        replace_value_def Let_def)
  have t: "transform_columns L lone_recipients_frame = Inl KeyError"
    by (simp add: transform_columns_def d ob s c)
      (simp add: drop_columns_def has_column_def column_names_def lonlat_columns_def)
  from h c t show ?thesis by simp
qed

text \<open>
  C10. When the glob matches no file, \<open>transform_and_union\<close> raises at the concatenation
  of the empty list and \<open>get_file_stats\<close> raises at the sort of the empty table, so
  neither mode reaches the point where a file is written.
\<close>

theorem empty_glob_writes_nothing:
  "transform_and_union L [] = Inl ValueError
   \<and> get_file_stats L [] V = Inl KeyError
   \<and> generate_report L [] = Inl KeyError"
  by (simp add: transform_and_union_def concat_frames_def get_file_stats_def sort_stats_def
      generate_report_def)

section \<open>The order of the rows\<close>

lemma index_of_None: "(index_of x xs = None) = (x \<notin> set xs)"
  by (induction xs) auto

lemma index_of_Some: "index_of x xs = Some j \<Longrightarrow> j < length xs \<and> xs ! j = x"
  by (induction xs arbitrary: j) (auto split: if_splits)

lemma index_of_mem: "x \<in> set xs \<Longrightarrow> \<exists>j. index_of x xs = Some j"
  using index_of_None [of x xs] by (cases "index_of x xs") auto










lemma date_key_month_year_cell: "date_key (month_year_cell k) = Inr k"
  by (cases k) (auto simp: date_key_def month_year_cell_def)




section \<open>One file, and the concatenation\<close>

lemma scalar_column_set [simp]: "scalar_column (set_column df c x) t v = scalar_column df t v"
  by (simp add: scalar_column_def)

lemma prepare_file_Inr:
  assumes "prepare_file L file = Inr d"
  obtains my df x totals where
    "extract_month_year_from_filename (fst file) = Inr my"
    "transform_columns L (snd file) = Inr df"
    "get_column df ''taskDetails'' = Inr x"
    "map_err extract_total_from_task_details (cells x) = Inr totals"
    "d = set_column
           (set_column
              (set_column df ''Filename'' (scalar_column df Object (Text (basename (fst file)))))
              ''Month/Year'' (scalar_column df Object (month_year_cell my)))
           ''TotalAmount'' \<lparr>dtype = Float64, cells = map float_cell totals\<rparr>"
  using assms by (auto simp: prepare_file_def Let_def split: sum.splits)

lemma prepare_file_facts:
  assumes "prepare_file L file = Inr d"
  shows "nrows d = nrows (snd file)"
    and "\<exists>my. extract_month_year_from_filename (fst file) = Inr my
           \<and> get_column d ''Month/Year''
                = Inr \<lparr>dtype = Object, cells = replicate (nrows d) (month_year_cell my)\<rparr>"
    and "get_column d ''Filename''
           = Inr \<lparr>dtype = Object, cells = replicate (nrows d) (Text (basename (fst file)))\<rparr>"
proof -
  from assms obtain my df x totals where
    e: "extract_month_year_from_filename (fst file) = Inr my" and
    t: "transform_columns L (snd file) = Inr df" and
    d: "d = set_column
           (set_column
              (set_column df ''Filename'' (scalar_column df Object (Text (basename (fst file)))))
              ''Month/Year'' (scalar_column df Object (month_year_cell my)))
           ''TotalAmount'' \<lparr>dtype = Float64, cells = map float_cell totals\<rparr>"
    by (rule prepare_file_Inr)
  have n: "nrows d = nrows df" by (simp add: d)
  then show "nrows d = nrows (snd file)" by (simp add: transform_columns_nrows [OF t])
  show "\<exists>my. extract_month_year_from_filename (fst file) = Inr my
           \<and> get_column d ''Month/Year''
                = Inr \<lparr>dtype = Object, cells = replicate (nrows d) (month_year_cell my)\<rparr>"
    using e by (simp add: n) (simp add: d scalar_column_def)
  show "get_column d ''Filename''
           = Inr \<lparr>dtype = Object, cells = replicate (nrows d) (Text (basename (fst file)))\<rparr>"
    by (simp add: n) (simp add: d scalar_column_def)
qed

lemma prepare_file_any_name:
  assumes "prepare_file L (p, df) = Inr d"
  shows "\<exists>d'. prepare_file L (p', df) = Inr d'"
proof -
  from assms obtain df1 x totals where
    "transform_columns L df = Inr df1"
    "get_column df1 ''taskDetails'' = Inr x"
    "map_err extract_total_from_task_details (cells x) = Inr totals"
    by (rule prepare_file_Inr) auto
  moreover obtain my where "extract_month_year_from_filename p' = Inr my"
    using extract_never_raises by blast
  ultimately show ?thesis
    by (simp add: prepare_file_def Let_def)
qed

lemma union_fold_set:
  "set (foldl (\<lambda>acc n. if n \<in> set acc then acc else acc @ [n]) a xs) = set a \<union> set xs"
  by (induction xs arbitrary: a) auto

lemma union_names_has: "(n \<in> set (union_names dfs)) = (\<exists>df \<in> set dfs. has_column df n)"
  by (auto simp: union_names_def union_fold_set has_column_def)

lemma union_names_mem: "d \<in> set dfs \<Longrightarrow> has_column d c \<Longrightarrow> c \<in> set (union_names dfs)"
  unfolding union_names_has by (rule bexI)

lemma length_frame_rows [simp]: "length (frame_rows names df) = nrows df"
  by (simp add: frame_rows_def)



lemma nth_or_null_replicate: "i < n \<Longrightarrow> nth_or_null (replicate n v) i = v"
  by (simp add: nth_or_null_def)

lemma frame_row_cell:
  assumes "j < length names" and "get_column df (names ! j) = Inr x"
  shows "nth_or_null (frame_row names df i) j = nth_or_null (cells x) i"
  using assms by (auto simp: frame_row_def nth_or_null_def get_column_def split: option.splits)

lemma frame_rows_scalar:
  assumes "j < length names"
    and "get_column df (names ! j) = Inr \<lparr>dtype = t, cells = replicate (nrows df) v\<rparr>"
    and "r \<in> set (frame_rows names df)"
  shows "nth_or_null r j = v"
proof -
  from assms(3) obtain i where "i < nrows df" "r = frame_row names df i"
    by (auto simp: frame_rows_def)
  then show ?thesis
    using frame_row_cell [OF assms(1,2), of i] by (simp add: nth_or_null_replicate)
qed

lemma map_err_nth:
  assumes "map_err f xs = Inr ys" "i < length xs"
  shows "f (xs ! i) = Inr (ys ! i)"
  using map_err_Inr [OF assms(1)] assms(2) by blast

lemma map_err_mem:
  assumes "map_err f xs = Inr ys" "y \<in> set ys"
  shows "\<exists>x \<in> set xs. f x = Inr y"
proof -
  from assms(2) obtain i where "i < length ys" "ys ! i = y" by (auto simp: in_set_conv_nth)
  with map_err_Inr [OF assms(1)] show ?thesis by (metis nth_mem)
qed

text \<open>Every row of the concatenation of prepared tables has a date or nothing under
  \<^verbatim>\<open>Month/Year\<close>, so the sort does not fail.\<close>

lemma prepared_sorts:
  assumes p: "map_err (prepare_file L) files = Inr all_data" and ne: "all_data \<noteq> []"
  shows "\<exists>out. transform_and_union L files = Inr out"
proof -
  let ?H = "union_names all_data"
  let ?t = "\<lparr>header = ?H, body = concat (map (frame_rows ?H) all_data)\<rparr>"
  have c: "concat_frames all_data = Inr ?t"
    using ne by (simp add: concat_frames_def)
  have my: "\<exists>k. get_column d ''Month/Year''
                = Inr \<lparr>dtype = Object, cells = replicate (nrows d) (month_year_cell k)\<rparr>"
    if "d \<in> set all_data" for d
  proof -
    from map_err_mem [OF p that] obtain f where "prepare_file L f = Inr d" by auto
    from prepare_file_facts(2) [OF this] show ?thesis by auto
  qed
  obtain d0 where d0: "d0 \<in> set all_data" using ne by (cases all_data) auto
  from my [OF d0] obtain k0 where
    "get_column d0 ''Month/Year''
       = Inr \<lparr>dtype = Object, cells = replicate (nrows d0) (month_year_cell k0)\<rparr>"
    by blast
  then have "has_column d0 ''Month/Year''" by (rule get_column_Inr)
  with d0 have "''Month/Year'' \<in> set ?H"
    by (rule union_names_mem)
  from index_of_mem [OF this] obtain j where j: "index_of ''Month/Year'' ?H = Some j" ..
  from index_of_Some [OF j] have jl: "j < length ?H" and jn: "?H ! j = ''Month/Year''"
    by simp_all
  have "\<exists>k. date_key (nth_or_null r j) = Inr k" if "r \<in> set (body ?t)" for r
  proof -
    from that obtain d where d: "d \<in> set all_data" and r: "r \<in> set (frame_rows ?H d)"
      by auto
    from my [OF d] obtain k where
      "get_column d (?H ! j) = Inr \<lparr>dtype = Object, cells = replicate (nrows d) (month_year_cell k)\<rparr>"
      unfolding jn ..
    from frame_rows_scalar [OF jl this r] show ?thesis
      by (simp add: date_key_month_year_cell)
  qed
  then obtain keys where "map_err (\<lambda>r. date_key (nth_or_null r j)) (body ?t) = Inr keys"
    using map_err_total [of "body ?t" "\<lambda>r. date_key (nth_or_null r j)"] by blast
  then show ?thesis
    using j by (simp add: transform_and_union_def p c sort_values_def)
qed








section \<open>The table \<open>transform_and_union\<close> writes\<close>






end
